theory Spec2Isabelle
  imports Main "HOL-Library.Word"
begin

unbundle bit_operations_syntax

section \<open>Target-level integers and fatal errors\<close>

text \<open>
  The generator emits 32-bit target integers through \<open>i32(x)\<close>, which hands a C++ integer to
  the builder's 32-bit constant constructor: the value is reduced modulo \<open>2 ^ 32\<close>.
  Every \<open>throw std::runtime_error\<close> of the generator is a value of \<open>error\<close>. Operations
  whose behaviour is undefined in C++ (a division by zero, a \<open>std::vector\<close> read past its
  end, a dereferenced null pointer) are errors of their own, and \<open>std::vector::at\<close> past the
  end is the exception it throws, so that no model silently continues there.
  \<open>Invalid_type\<close> is the builder's assertion when a constant is requested at a type of
  the wrong kind.
\<close>

type_synonym i32 = "32 word"

definition i32 :: "int \<Rightarrow> i32" where
  "i32 n = word_of_int n"

datatype error =
    Should_be_PHINode
  | Unsupported_fp32_to_fp8_conversion
  | Unsupported_conversion
  | Unsupported_cast
  | Unreachable
  | Out_of_range
  | Division_by_zero
  | Null_dereference
  | Invalid_type

text \<open>A checked read of a \<open>std::vector\<close>.\<close>

definition at :: "'a list \<Rightarrow> nat \<Rightarrow> error + 'a" where
  "at xs i = (if i < length xs then Inr (xs ! i) else Inl Out_of_range)"

text \<open>C++ integer division and remainder truncate towards zero; a zero divisor is an error.\<close>

definition c_div :: "int \<Rightarrow> int \<Rightarrow> error + int" where
  "c_div a b = (if b = 0 then Inl Division_by_zero else Inr (sgn a * sgn b * (\<bar>a\<bar> div \<bar>b\<bar>)))"

definition c_mod :: "int \<Rightarrow> int \<Rightarrow> error + int" where
  "c_mod a b = (if b = 0 then Inl Division_by_zero else Inr (sgn a * (\<bar>a\<bar> mod \<bar>b\<bar>)))"

section \<open>Shared-buffer finalization: N-stage index phis\<close>

text \<open>
  \<open>finalize_smem_idx\<close> (the lambda of \<open>finalize_shared_layout\<close>) closes one stage-index
  phi. At the loop latch it emits \<open>cond = icmp_eq(idx, i32(num_stages - 1))\<close> and a phi
  \<open>_ret\<close> with incoming \<open>i32(0)\<close> from the then-block and \<open>add(idx, i32(1))\<close> from the
  else-block. The index phi receives \<open>i32(init_stage)\<close> from incoming block 0 and \<open>_ret\<close>
  from incoming block 1. The value stored for the buffer must be a phi, otherwise the
  generator throws.
\<close>

datatype smem_slot = PHINode_slot | Other_slot

record smem_idx_phi =
  init_incoming :: i32
  latch_incoming :: "i32 \<Rightarrow> i32"

definition smem_idx_ret :: "int \<Rightarrow> i32 \<Rightarrow> i32" where
  "smem_idx_ret num_stages idx =
     (if idx = i32 (num_stages - 1) then i32 0 else idx + i32 1)"

definition finalize_smem_idx :: "int \<Rightarrow> smem_slot \<Rightarrow> int \<Rightarrow> error + smem_idx_phi" where
  "finalize_smem_idx num_stages slot init_stage =
     (case slot of
        PHINode_slot \<Rightarrow>
          Inr \<lparr>init_incoming = i32 init_stage, latch_incoming = smem_idx_ret num_stages\<rparr>
      | Other_slot \<Rightarrow> Inl Should_be_PHINode)"

text \<open>The two calls of \<open>finalize_shared_layout\<close> for an N-stage buffer.\<close>

definition finalize_read_smem_idx :: "int \<Rightarrow> smem_slot \<Rightarrow> error + smem_idx_phi" where
  "finalize_read_smem_idx num_stages slot = finalize_smem_idx num_stages slot 2"

definition finalize_write_smem_idx :: "int \<Rightarrow> smem_slot \<Rightarrow> error + smem_idx_phi" where
  "finalize_write_smem_idx num_stages slot = finalize_smem_idx num_stages slot (num_stages - 1)"

text \<open>The value a closed phi holds after \<open>k\<close> trips around the loop.\<close>

fun phi_after :: "smem_idx_phi \<Rightarrow> nat \<Rightarrow> i32" where
  "phi_after p 0 = init_incoming p"
| "phi_after p (Suc k) = latch_incoming p (phi_after p k)"

section \<open>Shared-buffer finalization: the double-buffer offset phi\<close>

text \<open>
  For a double-buffered layout \<open>finalize_shared_layout\<close> walks the incoming edges of the
  buffer's phi. On the edge whose incoming value is the latch it adds \<open>neg(offset)\<close>, the
  negation of the offset phi itself; on every other edge it adds the constant
  \<open>i32(shared->get_size() / (2*num_bytes))\<close>, where
  \<open>num_bytes = get_primitive_size_in_bits() / 8\<close>. Both operands are \<open>unsigned\<close>; an element
  type narrower than a byte makes the divisor zero.
\<close>

datatype offset_incoming = Negated_offset | Constant_offset i32

definition num_bytes :: "nat \<Rightarrow> nat" where
  "num_bytes primitive_size_in_bits = primitive_size_in_bits div 8"

definition unsigned_mul :: "nat \<Rightarrow> nat \<Rightarrow> nat" where
  "unsigned_mul a b = (a * b) mod 2 ^ 32"

fun finalize_double_buffer_offset ::
  "nat \<Rightarrow> nat \<Rightarrow> 'v \<Rightarrow> ('b \<times> 'v) list \<Rightarrow> error + ('b \<times> offset_incoming) list" where
  "finalize_double_buffer_offset sz bits latch [] = Inr []"
| "finalize_double_buffer_offset sz bits latch ((inc_block, inc_val) # rest) =
     (if inc_val = latch then
        (case finalize_double_buffer_offset sz bits latch rest of
           Inl e \<Rightarrow> Inl e
         | Inr incs \<Rightarrow> Inr ((inc_block, Negated_offset) # incs))
      else if unsigned_mul 2 (num_bytes bits) = 0 then Inl Division_by_zero
      else
        (case finalize_double_buffer_offset sz bits latch rest of
           Inl e \<Rightarrow> Inl e
         | Inr incs \<Rightarrow>
             Inr ((inc_block, Constant_offset (i32 (int (sz div unsigned_mul 2 (num_bytes bits)))))
                  # incs)))"

text \<open>
  A phi takes the incoming value of the edge control arrives on. \<open>offset_enter\<close> is the
  value of the offset phi on arrival from block \<open>b\<close> when it held \<open>cur\<close> before; a
  block that is no predecessor gives no value. \<open>offset_run\<close> follows a sequence of arrivals.
\<close>

definition offset_enter :: "('b \<times> offset_incoming) list \<Rightarrow> 'b \<Rightarrow> i32 \<Rightarrow> i32 option" where
  "offset_enter incs b cur =
     (case map_of incs b of
        None \<Rightarrow> None
      | Some Negated_offset \<Rightarrow> Some (- cur)
      | Some (Constant_offset c) \<Rightarrow> Some c)"

fun offset_run :: "('b \<times> offset_incoming) list \<Rightarrow> 'b list \<Rightarrow> i32 \<Rightarrow> i32 option" where
  "offset_run incs [] cur = Some cur"
| "offset_run incs (b # bs) cur =
     (case offset_enter incs b cur of None \<Rightarrow> None | Some v \<Rightarrow> offset_run incs bs v)"

section \<open>Target-level values\<close>

text \<open>
  The values the generator stores in its value table are nodes of the target program:
  constants, which the builder keeps in folded form, and instructions. \<open>Argument\<close> stands
  for any value computed at run time by code outside the functions modelled here.
  Floating-point constants carry their type and their bit pattern.
\<close>

datatype llvm_type = IntegerTy nat | HalfTy | FloatTy | DoubleTy | VectorTy llvm_type nat

fun bit_width :: "llvm_type \<Rightarrow> nat" where
  "bit_width (IntegerTy w) = w"
| "bit_width HalfTy = 16"
| "bit_width FloatTy = 32"
| "bit_width DoubleTy = 64"
| "bit_width (VectorTy t n) = n * bit_width t"

datatype cache_modifier = NONE | CA | CG

datatype mov_src = Immediate int | Operand nat

text \<open>
  The inline machine code fragments. \<open>Fp8x4_to_fp16x4_ptx\<close> is the fixed text of
  \<open>fp8x4_to_fp16x4\<close>. \<open>Ld_global\<close> is the text \<open>visit_load_inst\<close> assembles:
  \<open>@$n_words ld.global[.ca|.cg][.v<n_words>].b<width> {$0, ...}, [ $<n_words+1> + in_off];\<close>
  followed, for each entry \<open>(ii, src)\<close> of the last field, by the line
  \<open>@!$n_words mov.u<width> $ii, src;\<close> where an \<open>Immediate\<close> is printed in hexadecimal
  and \<open>Operand k\<close> is the placeholder \<open>$k\<close>.
\<close>

datatype inline_asm =
    Fp8x4_to_fp16x4_ptx
  | Ld_global (asm_n_words: nat) (asm_width: nat) (asm_in_off: nat) (asm_cache: cache_modifier)
      (asm_movs: "(nat \<times> mov_src) list")

datatype binary_op = Add | Sub | FAdd | FSub

datatype icmp_pred = ICMP_SGE | ICMP_SLE

datatype intrinsic = Maxnum | Minnum

datatype llvm_value =
    Nullptr
  | ConstantInt nat int
  | ConstantFP llvm_type nat
  | UndefValue
  | ConstantVector "llvm_value list"
  | ConstantExpr_BitCast llvm_value llvm_type
  | Argument nat
  | GetElementPtr llvm_value llvm_value
  | InsertElement llvm_value llvm_value nat
  | ExtractElement llvm_value nat
  | ExtractValue llvm_value nat
  | BitCast llvm_value llvm_type
  | FPExt llvm_value llvm_type
  | Call inline_asm "llvm_value list"
  | BinaryOperator binary_op llvm_value llvm_value
  | ICmp icmp_pred llvm_value llvm_value
  | Select llvm_value llvm_value llvm_value
  | Intrinsic intrinsic "llvm_value list"

type_synonym indices = "llvm_value list"

text \<open>
  \<open>vals_[v][idx]\<close> is \<open>operator[]\<close> of a \<open>std::map\<close> of pointers: a missing entry reads as
  the null pointer.
\<close>

definition lookup :: "(indices \<rightharpoonup> llvm_value) \<Rightarrow> indices \<Rightarrow> llvm_value" where
  "lookup vals idx = (case vals idx of None \<Rightarrow> Nullptr | Some v \<Rightarrow> v)"

definition bind_err :: "error + 'a \<Rightarrow> ('a \<Rightarrow> error + 'b) \<Rightarrow> error + 'b" where
  "bind_err r f = (case r of Inl e \<Rightarrow> Inl e | Inr x \<Rightarrow> f x)"

subsection \<open>The builder's constant folder\<close>

text \<open>
  The generator creates instructions through an \<open>IRBuilder\<close> with LLVM's default constant
  folder, which is not part of the generator. What the functions below use of it:
  an \<open>insertelement\<close> of a constant into a constant vector is the updated constant vector; a
  bit cast of a constant is folded when the constant is undefined or null (all bits zero:
  integer 0, floating-point +0.0, a vector of such) and otherwise stays a constant
  expression; everything with a non-constant operand is an instruction. The generator
  bit-casts only vectors and instruction results, and extracts only from instruction
  results, so no other folding rule is needed.
\<close>

definition UndefValue_vec :: "nat \<Rightarrow> llvm_value" where
  "UndefValue_vec n = ConstantVector (replicate n UndefValue)"

fun is_constant :: "llvm_value \<Rightarrow> bool" where
  "is_constant (ConstantInt w n) = True"
| "is_constant (ConstantFP t b) = True"
| "is_constant UndefValue = True"
| "is_constant (ConstantVector es) = True"
| "is_constant (ConstantExpr_BitCast v t) = True"
| "is_constant v = False"

fun isNullValue :: "llvm_value \<Rightarrow> bool" where
  "isNullValue (ConstantInt w n) = (n = 0)"
| "isNullValue (ConstantFP t b) = (b = 0)"
| "isNullValue (ConstantVector es) = (es \<noteq> [] \<and> list_all isNullValue es)"
| "isNullValue v = False"

fun is_undef :: "llvm_value \<Rightarrow> bool" where
  "is_undef UndefValue = True"
| "is_undef (ConstantVector es) = (es \<noteq> [] \<and> list_all is_undef es)"
| "is_undef v = False"

fun getNullValue :: "llvm_type \<Rightarrow> llvm_value" where
  "getNullValue (IntegerTy w) = ConstantInt w 0"
| "getNullValue (VectorTy t n) = ConstantVector (replicate n (getNullValue t))"
| "getNullValue t = ConstantFP t 0"

definition insert_elt :: "llvm_value \<Rightarrow> llvm_value \<Rightarrow> nat \<Rightarrow> llvm_value" where
  "insert_elt vec elt i =
     (case vec of
        ConstantVector es \<Rightarrow>
          if is_constant elt then
            (if i < length es then ConstantVector (es[i := elt])
             else UndefValue_vec (length es))
          else InsertElement vec elt i
      | _ \<Rightarrow> InsertElement vec elt i)"

definition bit_cast :: "llvm_value \<Rightarrow> llvm_type \<Rightarrow> llvm_value" where
  "bit_cast v ty =
     (if is_constant v then
        (if is_undef v then UndefValue
         else if isNullValue v then getNullValue ty
         else ConstantExpr_BitCast v ty)
      else BitCast v ty)"

definition extract_val :: "llvm_value \<Rightarrow> nat \<Rightarrow> llvm_value" where
  "extract_val agg i = ExtractValue agg i"

definition extract_elt :: "llvm_value \<Rightarrow> nat \<Rightarrow> llvm_value" where
  "extract_elt vec i = ExtractElement vec i"

definition call :: "inline_asm \<Rightarrow> llvm_value list \<Rightarrow> llvm_value" where
  "call a args = Call a args"

section \<open>Narrow floating-point conversions\<close>

text \<open>
  \<open>fp32x4_to_fp8x4\<close> accepts an operand only when it is a floating-point constant whose
  value compares equal to zero (\<open>convertToFloat() == 0\<close>, true of both signed zeros: every
  bit below the sign bit is clear); it then yields the 8-bit integer constant 0. Anything
  else throws.
\<close>

definition fp_equals_zero :: "llvm_type \<Rightarrow> nat \<Rightarrow> bool" where
  "fp_equals_zero t b = (b mod 2 ^ (bit_width t - 1) = 0)"

definition getInt8 :: "int \<Rightarrow> llvm_value" where
  "getInt8 n = ConstantInt 8 n"

fun fp32_to_fp8_cvt :: "llvm_value \<Rightarrow> error + llvm_value" where
  "fp32_to_fp8_cvt (ConstantFP t b) =
     (if fp_equals_zero t b then Inr (getInt8 0) else Inl Unsupported_cast)"
| "fp32_to_fp8_cvt Nullptr = Inl Null_dereference"
| "fp32_to_fp8_cvt v = Inl Unsupported_cast"

definition fp32x4_to_fp8x4 ::
  "llvm_value \<Rightarrow> llvm_value \<Rightarrow> llvm_value \<Rightarrow> llvm_value
   \<Rightarrow> error + (llvm_value \<times> llvm_value \<times> llvm_value \<times> llvm_value)" where
  "fp32x4_to_fp8x4 in0 in1 in2 in3 =
     bind_err (fp32_to_fp8_cvt in0) (\<lambda>r0.
     bind_err (fp32_to_fp8_cvt in1) (\<lambda>r1.
     bind_err (fp32_to_fp8_cvt in2) (\<lambda>r2.
     bind_err (fp32_to_fp8_cvt in3) (\<lambda>r3. Inr (r0, r1, r2, r3)))))"

text \<open>
  \<open>fp8x4_to_fp16x4\<close> packs its four 8-bit operands into a 4-vector, casts it to one
  32-bit integer, calls the inline fragment and unpacks two 2-vectors of 16-bit floats.
\<close>

definition fp8x4_to_fp16x4 ::
  "llvm_value \<Rightarrow> llvm_value \<Rightarrow> llvm_value \<Rightarrow> llvm_value
   \<Rightarrow> llvm_value \<times> llvm_value \<times> llvm_value \<times> llvm_value" where
  "fp8x4_to_fp16x4 in0 in1 in2 in3 =
     (let packed_in0 = UndefValue_vec 4;
          packed_in1 = insert_elt packed_in0 in0 0;
          packed_in2 = insert_elt packed_in1 in1 1;
          packed_in3 = insert_elt packed_in2 in2 2;
          packed_in = insert_elt packed_in3 in3 3;
          inp = bit_cast packed_in (IntegerTy 32);
          ret = call Fp8x4_to_fp16x4_ptx [inp];
          packed_ret0 = extract_val ret 0;
          packed_ret1 = extract_val ret 1;
          ret0 = extract_elt packed_ret0 0;
          ret1 = extract_elt packed_ret0 1;
          ret2 = extract_elt packed_ret1 0;
          ret3 = extract_elt packed_ret1 1
      in (ret0, ret1, ret2, ret3))"

definition cast_FPExt :: "llvm_value \<Rightarrow> llvm_type \<Rightarrow> llvm_value" where
  "cast_FPExt v ty = FPExt v ty"

definition fp8x4_to_fp32x4 ::
  "llvm_value \<Rightarrow> llvm_value \<Rightarrow> llvm_value \<Rightarrow> llvm_value
   \<Rightarrow> llvm_value \<times> llvm_value \<times> llvm_value \<times> llvm_value" where
  "fp8x4_to_fp32x4 in0 in1 in2 in3 =
     (case fp8x4_to_fp16x4 in0 in1 in2 in3 of
        (ret0, ret1, ret2, ret3) \<Rightarrow>
          (cast_FPExt ret0 FloatTy, cast_FPExt ret1 FloatTy,
           cast_FPExt ret2 FloatTy, cast_FPExt ret3 FloatTy))"

subsection \<open>What the emitted code computes\<close>

text \<open>
  The three machine instructions of the fragment, on 32-bit registers.
  \<open>prmt.b32 d, a, b, c\<close> (default mode) builds each byte of \<open>d\<close> from one 4-bit selector of
  \<open>c\<close>: its low three bits pick a byte of the pair (\<open>a\<close> holds bytes 0 to 3, \<open>b\<close> bytes 4
  to 7), its top bit asks for the replicated sign bit of that byte instead.
  \<open>lop3.b32 d, a, b, c, lut\<close> computes bitwise the Boolean function whose truth table is
  \<open>lut\<close>, the row being numbered \<open>4a + 2b + c\<close>. \<open>shr.b32\<close> is the logical right shift.
\<close>

definition prmt_byte :: "i32 \<Rightarrow> i32 \<Rightarrow> i32 \<Rightarrow> nat \<Rightarrow> i32" where
  "prmt_byte a b c i =
     (let sel = drop_bit (4 * i) c AND 15;
          src = (if sel AND 4 = 0 then a else b);
          byte = drop_bit (8 * unat (sel AND 3)) src AND 255
      in if sel AND 8 = 0 then byte
         else if byte AND 128 = 0 then 0 else 255)"

definition prmt_b32 :: "i32 \<Rightarrow> i32 \<Rightarrow> i32 \<Rightarrow> i32" where
  "prmt_b32 a b c =
     prmt_byte a b c 0 OR push_bit 8 (prmt_byte a b c 1)
       OR push_bit 16 (prmt_byte a b c 2) OR push_bit 24 (prmt_byte a b c 3)"

definition lop3_row :: "i32 \<Rightarrow> i32 \<Rightarrow> i32 \<Rightarrow> nat \<Rightarrow> i32" where
  "lop3_row a b c r =
     (if odd (r div 4) then a else NOT a)
       AND (if odd (r div 2) then b else NOT b)
       AND (if odd r then c else NOT c)"

definition lop3_b32 :: "i32 \<Rightarrow> i32 \<Rightarrow> i32 \<Rightarrow> nat \<Rightarrow> i32" where
  "lop3_b32 a b c lut =
     foldr (\<lambda>r acc. (if odd (lut div 2 ^ r) then lop3_row a b c r else 0) OR acc)
       [0, 1, 2, 3, 4, 5, 6, 7] 0"

definition shr_b32 :: "i32 \<Rightarrow> nat \<Rightarrow> i32" where
  "shr_b32 a n = drop_bit n a"

text \<open>
  The fragment, line by line; \<open>$2\<close> is the packed input, \<open>$0\<close> and \<open>$1\<close> the two results:
  \<^verbatim>\<open>prmt.b32 a0, 0, $2, 0x5140;  prmt.b32 a1, 0, $2, 0x7362;\<close>
  \<^verbatim>\<open>lop3.b32 b0, a0, 0x7fff7fff, 0, 0xc0;  lop3.b32 b1, a1, 0x7fff7fff, 0, 0xc0;\<close>
  \<^verbatim>\<open>shr.b32 b0, b0, 1;  shr.b32 b1, b1, 1;\<close>
  \<^verbatim>\<open>lop3.b32 $0, b0, 0x80008000, a0, 0xf8;  lop3.b32 $1, b1, 0x80008000, a1, 0xf8;\<close>
\<close>

definition fp8x4_to_fp16x4_ptx :: "i32 \<Rightarrow> i32 \<times> i32" where
  "fp8x4_to_fp16x4_ptx inp =
     (let a0 = prmt_b32 0 inp 0x5140;
          a1 = prmt_b32 0 inp 0x7362;
          b0 = lop3_b32 a0 0x7fff7fff 0 0xc0;
          b1 = lop3_b32 a1 0x7fff7fff 0 0xc0;
          b0' = shr_b32 b0 1;
          b1' = shr_b32 b1 1;
          r0 = lop3_b32 b0' 0x80008000 a0 0xf8;
          r1 = lop3_b32 b1' 0x80008000 a1 0xf8
      in (r0, r1))"

text \<open>
  Run-time values are bit patterns, vectors and structures of them. A vector is laid out
  with element 0 in the least significant bits. \<open>fpext\<close> from the 16-bit to the 32-bit
  format keeps the sign, rebiases the exponent by 112 and widens the fraction by 13 bits;
  zeros, subnormal numbers, infinities and NaNs are treated apart. Integer addition and
  subtraction wrap around, integer comparison is signed; floating-point arithmetic is not
  evaluated.
\<close>

datatype rt_value = Bits nat nat | RVector "rt_value list" | RStruct "rt_value list" | RUndef

fun concat_bits :: "(nat \<times> nat) option list \<Rightarrow> (nat \<times> nat) option" where
  "concat_bits [] = Some (0, 0)"
| "concat_bits (x # xs) =
     (case (x, concat_bits xs) of
        (Some (w, n), Some (w', n')) \<Rightarrow> Some (w + w', n + 2 ^ w * n')
      | _ \<Rightarrow> None)"

fun flatten :: "rt_value \<Rightarrow> (nat \<times> nat) option" where
  "flatten (Bits w n) = Some (w, n)"
| "flatten (RVector xs) = concat_bits (map flatten xs)"
| "flatten (RStruct xs) = None"
| "flatten RUndef = None"

fun unflatten :: "llvm_type \<Rightarrow> nat \<Rightarrow> rt_value" where
  "unflatten (VectorTy t k) n =
     RVector (map (\<lambda>i. unflatten t (n div 2 ^ (i * bit_width t))) [0..<k])"
| "unflatten t n = Bits (bit_width t) (n mod 2 ^ bit_width t)"

definition eval_bitcast :: "llvm_type \<Rightarrow> rt_value \<Rightarrow> rt_value option" where
  "eval_bitcast ty v =
     (case flatten v of
        Some (w, n) \<Rightarrow> if w = bit_width ty then Some (unflatten ty n) else None
      | None \<Rightarrow> None)"

fun top_bit :: "nat \<Rightarrow> nat" where
  "top_bit n = (if n < 2 then 0 else Suc (top_bit (n div 2)))"

definition fpext_half_float :: "nat \<Rightarrow> nat" where
  "fpext_half_float h =
     (let s = h div 2 ^ 15 mod 2; e = h div 2 ^ 10 mod 32; m = h mod 2 ^ 10
      in if e = 0 then
           (if m = 0 then s * 2 ^ 31
            else s * 2 ^ 31 + (103 + top_bit m) * 2 ^ 23 + (m * 2 ^ (23 - top_bit m)) mod 2 ^ 23)
         else if e = 31 then s * 2 ^ 31 + 255 * 2 ^ 23 + m * 2 ^ 13
         else s * 2 ^ 31 + (e + 112) * 2 ^ 23 + m * 2 ^ 13)"

definition eval_asm :: "inline_asm \<Rightarrow> rt_value list \<Rightarrow> rt_value option" where
  "eval_asm a args =
     (case (a, args) of
        (Fp8x4_to_fp16x4_ptx, [Bits w n]) \<Rightarrow>
          if w = 32 then
            (case fp8x4_to_fp16x4_ptx (of_nat n) of
               (r0, r1) \<Rightarrow>
                 Some (RStruct [unflatten (VectorTy HalfTy 2) (unat r0),
                                unflatten (VectorTy HalfTy 2) (unat r1)]))
          else None
      | _ \<Rightarrow> None)"

fun those_list :: "'a option list \<Rightarrow> 'a list option" where
  "those_list [] = Some []"
| "those_list (None # xs) = None"
| "those_list (Some x # xs) = (case those_list xs of None \<Rightarrow> None | Some ys \<Rightarrow> Some (x # ys))"

fun eval :: "(nat \<Rightarrow> rt_value) \<Rightarrow> llvm_value \<Rightarrow> rt_value option" where
  "eval env Nullptr = None"
| "eval env (ConstantInt w n) = Some (Bits w (nat (n mod 2 ^ w)))"
| "eval env (ConstantFP t b) = Some (Bits (bit_width t) b)"
| "eval env UndefValue = Some RUndef"
| "eval env (ConstantVector es) =
     (case those_list (map (eval env) es) of None \<Rightarrow> None | Some xs \<Rightarrow> Some (RVector xs))"
| "eval env (ConstantExpr_BitCast v t) =
     (case eval env v of None \<Rightarrow> None | Some x \<Rightarrow> eval_bitcast t x)"
| "eval env (Argument i) = Some (env i)"
| "eval env (GetElementPtr p i) = None"
| "eval env (InsertElement v e i) =
     (case (eval env v, eval env e) of
        (Some (RVector xs), Some x) \<Rightarrow> if i < length xs then Some (RVector (xs[i := x])) else None
      | _ \<Rightarrow> None)"
| "eval env (ExtractElement v i) =
     (case eval env v of
        Some (RVector xs) \<Rightarrow> if i < length xs then Some (xs ! i) else None
      | _ \<Rightarrow> None)"
| "eval env (ExtractValue v i) =
     (case eval env v of
        Some (RStruct xs) \<Rightarrow> if i < length xs then Some (xs ! i) else None
      | _ \<Rightarrow> None)"
| "eval env (BitCast v t) =
     (case eval env v of None \<Rightarrow> None | Some x \<Rightarrow> eval_bitcast t x)"
| "eval env (FPExt v t) =
     (case eval env v of
        Some (Bits w h) \<Rightarrow>
          if w = 16 \<and> t = FloatTy then Some (Bits 32 (fpext_half_float h)) else None
      | _ \<Rightarrow> None)"
| "eval env (Call a args) =
     (case those_list (map (eval env) args) of None \<Rightarrow> None | Some xs \<Rightarrow> eval_asm a xs)"
| "eval env (BinaryOperator opc a b) =
     (case (eval env a, eval env b) of
        (Some (Bits w x), Some (Bits w' y)) \<Rightarrow>
          if w = w' \<and> opc = Add then Some (Bits w ((x + y) mod 2 ^ w))
          else if w = w' \<and> opc = Sub then Some (Bits w ((x + 2 ^ w - y mod 2 ^ w) mod 2 ^ w))
          else None
      | _ \<Rightarrow> None)"
| "eval env (ICmp p a b) =
     (case (eval env a, eval env b) of
        (Some (Bits w x), Some (Bits w' y)) \<Rightarrow>
          if w = w' \<and> 0 < w then
            Some (Bits 1 (if (case p of
                 ICMP_SGE \<Rightarrow> signed_take_bit (w - 1) (int y) \<le> signed_take_bit (w - 1) (int x)
               | ICMP_SLE \<Rightarrow> signed_take_bit (w - 1) (int x) \<le> signed_take_bit (w - 1) (int y))
              then 1 else 0))
          else None
      | _ \<Rightarrow> None)"
| "eval env (Select c a b) =
     (case eval env c of
        Some (Bits w x) \<Rightarrow> if w = 1 then (if x = 1 then eval env a else eval env b) else None
      | _ \<Rightarrow> None)"
| "eval env (Intrinsic f args) = None"

section \<open>Layouts\<close>

text \<open>
  The layout analysis is an input of the generator. A scanline (distributed) layout gives,
  per dimension, the per-lane contiguous run length \<open>nts\<close> and the number of lanes \<open>mts\<close>;
  every layout has a dimension order and a shape. \<open>to_scanline\<close> is null for every other
  layout variant.
\<close>

record scanline_layout =
  get_order :: "nat list"
  get_shape :: "nat list"
  nts :: "nat list"
  mts :: "nat list"

datatype data_layout =
    Scanline scanline_layout
  | Mma "nat list"
  | Shared "nat list"

fun layout_order :: "data_layout \<Rightarrow> nat list" where
  "layout_order (Scanline l) = get_order l"
| "layout_order (Mma ord) = ord"
| "layout_order (Shared ord) = ord"

fun to_scanline :: "data_layout \<Rightarrow> error + scanline_layout" where
  "to_scanline (Scanline l) = Inr l"
| "to_scanline l = Inl Null_dereference"

section \<open>Lowering of casts to and from the 8-bit format\<close>

datatype ir_scalar_ty = FP8_ty | FP16_ty | BF16_ty | FP32_ty | FP64_ty | Integer_ty nat | Pointer_ty

text \<open>The conversion lambda of \<open>visit_cast_inst\<close>: two type pairs have a rule.\<close>

definition cast_cvt ::
  "ir_scalar_ty \<Rightarrow> ir_scalar_ty \<Rightarrow> llvm_value \<Rightarrow> llvm_value \<Rightarrow> llvm_value \<Rightarrow> llvm_value
   \<Rightarrow> error + (llvm_value \<times> llvm_value \<times> llvm_value \<times> llvm_value)" where
  "cast_cvt op_sca_ty ret_sca_ty a b c d =
     (if op_sca_ty = FP32_ty \<and> ret_sca_ty = FP8_ty then fp32x4_to_fp8x4 a b c d
      else if op_sca_ty = FP8_ty \<and> ret_sca_ty = FP16_ty then Inr (fp8x4_to_fp16x4 a b c d)
      else Inl Unsupported_conversion)"

text \<open>
  One trip of the loop \<open>for(i = 0; i < x_idxs.size(); i += 4)\<close>: the four operand values
  are read, converted, and the four results stored under the four result indices. The
  reads \<open>x_idxs[i+k]\<close> and \<open>op_idxs[i+k]\<close> are unchecked in the source; past the end they
  are \<open>Out_of_range\<close> here. The right-hand side is evaluated before the stores.
\<close>

definition cast_group ::
  "ir_scalar_ty \<Rightarrow> ir_scalar_ty \<Rightarrow> (indices \<rightharpoonup> llvm_value) \<Rightarrow> indices list \<Rightarrow> indices list
   \<Rightarrow> nat \<Rightarrow> error + (indices \<times> llvm_value) list" where
  "cast_group op_sca_ty ret_sca_ty vals_op x_idxs op_idxs i =
     bind_err (at op_idxs (i + 0)) (\<lambda>o0.
     bind_err (at op_idxs (i + 1)) (\<lambda>o1.
     bind_err (at op_idxs (i + 2)) (\<lambda>o2.
     bind_err (at op_idxs (i + 3)) (\<lambda>o3.
     bind_err (cast_cvt op_sca_ty ret_sca_ty (lookup vals_op o0) (lookup vals_op o1)
                 (lookup vals_op o2) (lookup vals_op o3)) (\<lambda>(r0, r1, r2, r3).
     bind_err (at x_idxs (i + 0)) (\<lambda>k0.
     bind_err (at x_idxs (i + 1)) (\<lambda>k1.
     bind_err (at x_idxs (i + 2)) (\<lambda>k2.
     bind_err (at x_idxs (i + 3)) (\<lambda>k3.
       Inr [(k0, r0), (k1, r1), (k2, r2), (k3, r3)])))))))))"

function cast_loop ::
  "ir_scalar_ty \<Rightarrow> ir_scalar_ty \<Rightarrow> (indices \<rightharpoonup> llvm_value) \<Rightarrow> indices list \<Rightarrow> indices list
   \<Rightarrow> nat \<Rightarrow> (indices \<times> llvm_value) list \<Rightarrow> error + (indices \<times> llvm_value) list" where
  "cast_loop op_sca_ty ret_sca_ty vals_op x_idxs op_idxs i stored =
     (if i < length x_idxs then
        (case cast_group op_sca_ty ret_sca_ty vals_op x_idxs op_idxs i of
           Inl e \<Rightarrow> Inl e
         | Inr entries \<Rightarrow>
             cast_loop op_sca_ty ret_sca_ty vals_op x_idxs op_idxs (i + 4) (stored @ entries))
      else Inr stored)"
  by pat_completeness auto
termination
  by (relation "measure (\<lambda>(op_sca_ty, ret_sca_ty, vals_op, x_idxs, op_idxs, i, stored).
        length x_idxs - i)") auto

declare cast_loop.simps [simp del]

text \<open>
  \<open>visit_cast_inst\<close>, the branch for the 8-bit format. The result lists the stores into
  the value table of the cast, in the order they happen; \<open>None\<close> stands for the other
  branches of the function (16-bit truncated format, generic casts), which are not modelled.
\<close>

definition visit_cast_inst ::
  "ir_scalar_ty \<Rightarrow> ir_scalar_ty \<Rightarrow> data_layout \<Rightarrow> indices list \<Rightarrow> indices list
   \<Rightarrow> (indices \<rightharpoonup> llvm_value) \<Rightarrow> error + (indices \<times> llvm_value) list option" where
  "visit_cast_inst ret_sca_ty op_sca_ty layout x_idxs op_idxs vals_op =
     (if ret_sca_ty = FP8_ty \<or> op_sca_ty = FP8_ty then
        bind_err (at (layout_order layout) 0) (\<lambda>ld.
        bind_err (to_scanline layout) (\<lambda>sl.
        bind_err (at (nts sl) ld) (\<lambda>contiguous.
          if contiguous mod 4 \<noteq> 0 then Inl Unsupported_fp32_to_fp8_conversion
          else bind_err (cast_loop op_sca_ty ret_sca_ty vals_op x_idxs op_idxs 0 [])
                 (\<lambda>stored. Inr (Some stored)))))
      else Inr None)"

text \<open>A compile-time floating-point constant equal to zero.\<close>

fun constant_zero_float :: "llvm_value \<Rightarrow> bool" where
  "constant_zero_float (ConstantFP t b) = fp_equals_zero t b"
| "constant_zero_float v = False"


text \<open>The stores of one group for the conversion from the 8-bit to the 16-bit format.\<close>

definition fp16_group ::
  "(indices \<rightharpoonup> llvm_value) \<Rightarrow> indices list \<Rightarrow> indices list \<Rightarrow> nat
   \<Rightarrow> (indices \<times> llvm_value) list" where
  "fp16_group vals_op x_idxs op_idxs g =
     (case fp8x4_to_fp16x4 (lookup vals_op (op_idxs ! (4 * g))) (lookup vals_op (op_idxs ! (4 * g + 1)))
             (lookup vals_op (op_idxs ! (4 * g + 2))) (lookup vals_op (op_idxs ! (4 * g + 3))) of
        (r0, r1, r2, r3) \<Rightarrow>
          [(x_idxs ! (4 * g), r0), (x_idxs ! (4 * g + 1), r1),
           (x_idxs ! (4 * g + 2), r2), (x_idxs ! (4 * g + 3), r3)])"

section \<open>Lowering of loads\<close>

text \<open>
  What \<open>visit_load_inst\<close> reads of a load \<open>x\<close> with pointer operand \<open>op\<close>: whether \<open>op\<close>
  has a block type, the alignment bound \<open>alignment_->get(op, ord[0])\<close>, the layout of \<open>x\<close>,
  the first entry of the order of \<open>op\<close>, the size in bits of the scalar type of \<open>x\<close>, the
  target type of an element, the cache modifier, the index tuples of \<open>x\<close>, the value table
  of \<open>op\<close> and, for a masked load, the value tables of the mask and of the fallback.
\<close>

record load_inst =
  op_is_block_ty :: bool
  alignment :: nat
  x_layout :: data_layout
  ord0 :: nat
  primitive_size_in_bits :: nat
  elt_ty :: llvm_type
  cache :: cache_modifier
  ld_idxs :: "indices list"
  ld_op_vals :: "indices \<rightharpoonup> llvm_value"
  masked :: "((indices \<rightharpoonup> llvm_value) \<times> (indices \<rightharpoonup> llvm_value)) option"

text \<open>
  The vector width. \<open>to_scanline\<close> may be null: the width then stays 1.
\<close>

definition load_vec :: "load_inst \<Rightarrow> error + nat" where
  "load_vec x =
     (if op_is_block_ty x then
        (case x_layout x of
           Scanline layout \<Rightarrow>
             bind_err (at (nts layout) (ord0 x)) (\<lambda>n. Inr (min n (alignment x)))
         | _ \<Rightarrow> Inr 1)
      else Inr 1)"

text \<open>
  The widths. \<open>nbits\<close> and \<open>vec\<close> are \<open>size_t\<close>, the widths are \<open>int\<close>: the product is
  taken modulo \<open>2 ^ 64\<close> and converted to 32 bits, two's complement.
  \<^verbatim>\<open>int max_word_width = std::max<int>(32, nbits); int tot_width = nbits*vec;\<close>
  \<^verbatim>\<open>int width = std::min(tot_width, max_word_width);\<close>
  \<^verbatim>\<open>int n_words = std::max(1, tot_width / width);\<close>
\<close>

definition to_int :: "nat \<Rightarrow> int" where
  "to_int n = signed_take_bit 31 (int n)"

definition to_size_t :: "int \<Rightarrow> nat" where
  "to_size_t n = nat (n mod 2 ^ 64)"

definition load_nbits :: "nat \<Rightarrow> nat" where
  "load_nbits bits = (bits div 8) * 8"

record widths =
  width :: int
  n_words :: int

definition load_widths :: "nat \<Rightarrow> nat \<Rightarrow> error + widths" where
  "load_widths nbits vec =
     (let max_word_width = max 32 (to_int nbits);
          tot_width = to_int ((nbits * vec) mod 2 ^ 64);
          width = min tot_width max_word_width
      in bind_err (c_div tot_width width) (\<lambda>q. Inr \<lparr>width = width, n_words = max 1 q\<rparr>))"

text \<open>
  A constant offset of the pointer is moved into the instruction:
  \<open>in_off = cst->getValue().getSExtValue()*dtsize\<close>, a \<open>size_t\<close>.
\<close>

fun fold_gep :: "llvm_value \<Rightarrow> nat \<Rightarrow> error + (llvm_value \<times> nat)" where
  "fold_gep Nullptr dtsize = Inl Null_dereference"
| "fold_gep (GetElementPtr p (ConstantInt w c)) dtsize = Inr (p, to_size_t (c * int dtsize))"
| "fold_gep ptr dtsize = Inr (ptr, 0)"

definition getTrue :: llvm_value where
  "getTrue = ConstantInt 1 (- 1)"

text \<open>
  The fallback of one word: its \<open>size\<close> elements are inserted into a vector, the vector
  is cast to an integer of the word's width, and the line
  \<open>@!$n_words mov.u<width> $ii, ...\<close> names either the integer, if the cast gave an integer
  constant, or the placeholder \<open>$<n_words + 2 + ii>\<close>, the cast value being appended to
  the operands.
\<close>

fun pack_elts ::
  "(indices \<rightharpoonup> llvm_value) \<Rightarrow> indices list \<Rightarrow> nat \<Rightarrow> nat list \<Rightarrow> llvm_value \<Rightarrow> error + llvm_value" where
  "pack_elts false_vals idxs base [] v = Inr v"
| "pack_elts false_vals idxs base (s # ss) v =
     (case at idxs (base + s) of
        Inl e \<Rightarrow> Inl e
      | Inr idx \<Rightarrow>
          if lookup false_vals idx = Nullptr then Inl Null_dereference
          else pack_elts false_vals idxs base ss (insert_elt v (lookup false_vals idx) s))"

definition fallback_word ::
  "(indices \<rightharpoonup> llvm_value) \<Rightarrow> indices list \<Rightarrow> nat \<Rightarrow> nat \<Rightarrow> nat \<Rightarrow> nat \<Rightarrow> nat
   \<Rightarrow> error + ((nat \<times> mov_src) \<times> llvm_value list)" where
  "fallback_word false_vals idxs i nwords wd sz ii =
     bind_err (pack_elts false_vals idxs (i + ii * sz) [0..<sz] (UndefValue_vec sz)) (\<lambda>v.
       case bit_cast v (IntegerTy wd) of
         ConstantInt w cst \<Rightarrow> Inr ((ii, Immediate cst), [])
       | v' \<Rightarrow> Inr ((ii, Operand (nwords + 2 + ii)), [v']))"

fun fallback_words ::
  "(indices \<rightharpoonup> llvm_value) \<Rightarrow> indices list \<Rightarrow> nat \<Rightarrow> nat \<Rightarrow> nat \<Rightarrow> nat \<Rightarrow> nat list
   \<Rightarrow> (nat \<times> mov_src) list \<Rightarrow> llvm_value list
   \<Rightarrow> error + ((nat \<times> mov_src) list \<times> llvm_value list)" where
  "fallback_words false_vals idxs i nwords wd sz [] movs others = Inr (movs, others)"
| "fallback_words false_vals idxs i nwords wd sz (ii # iis) movs others =
     (case fallback_word false_vals idxs i nwords wd sz ii of
        Inl e \<Rightarrow> Inl e
      | Inr (mov, other) \<Rightarrow>
          fallback_words false_vals idxs i nwords wd sz iis (movs @ [mov]) (others @ other))"

text \<open>
  One trip of the loop over the index tuples, for the group that starts at \<open>i\<close>: the call
  of the assembled instruction with operands predicate, pointer and fallbacks, and the
  stores into the value table of the load. The reads \<open>idxs[i + ii]\<close> and \<open>rets[ii / tmp]\<close>
  are unchecked in the source; past the end they are \<open>Out_of_range\<close> here, and a zero
  \<open>tmp\<close> is a division by zero.
\<close>

record load_group =
  ld_call :: llvm_value
  ld_stores :: "(indices \<times> llvm_value) list"

fun store_elts ::
  "indices list \<Rightarrow> llvm_value list \<Rightarrow> nat \<Rightarrow> nat \<Rightarrow> nat list \<Rightarrow> error + (indices \<times> llvm_value) list" where
  "store_elts idxs rets i tmp [] = Inr []"
| "store_elts idxs rets i tmp (ii # iis) =
     (case at idxs (i + ii) of
        Inl e \<Rightarrow> Inl e
      | Inr idx \<Rightarrow>
          (case at rets (ii div tmp) of
             Inl e \<Rightarrow> Inl e
           | Inr r \<Rightarrow>
               (case store_elts idxs rets i tmp iis of
                  Inl e \<Rightarrow> Inl e
                | Inr rest \<Rightarrow> Inr ((idx, extract_elt r (ii mod tmp)) # rest))))"

definition load_group :: "load_inst \<Rightarrow> nat \<Rightarrow> nat \<Rightarrow> error + load_group" where
  "load_group x vec i =
     bind_err (at (ld_idxs x) i) (\<lambda>idx.
     let dtsize = primitive_size_in_bits x div 8 in
     bind_err (fold_gep (lookup (ld_op_vals x) idx) dtsize) (\<lambda>(ptr, in_off).
     let pred = (case masked x of Some (mask_vals, false_vals) \<Rightarrow> lookup mask_vals idx
                 | None \<Rightarrow> getTrue);
         other = (case masked x of Some (mask_vals, false_vals) \<Rightarrow> lookup false_vals idx
                 | None \<Rightarrow> Nullptr);
         nbits = dtsize * 8 in
     bind_err (load_widths nbits vec) (\<lambda>w.
     let nwords = nat (n_words w);
         wd = to_size_t (width w);
         has_other = (other \<noteq> Nullptr \<and> other \<noteq> UndefValue) in
     bind_err (if has_other then
                 fallback_words (snd (the (masked x))) (ld_idxs x) i nwords wd (wd div nbits)
                   [0..<nwords] [] []
               else Inr ([], [])) (\<lambda>(movs, others).
     let ret = call (Ld_global nwords wd in_off (cache x) movs) ([pred, ptr] @ others);
         rets = map (\<lambda>ii. bit_cast (if 1 < nwords then extract_val ret ii else ret)
                              (VectorTy (elt_ty x) (wd div (dtsize * 8)))) [0..<nwords];
         tmp = wd div (dtsize * 8) in
     if tmp = 0 then Inl Division_by_zero
     else
       bind_err (store_elts (ld_idxs x) rets i tmp [0..<vec]) (\<lambda>stores.
         Inr \<lparr>ld_call = ret, ld_stores = stores\<rparr>)))))"

text \<open>
  The loop \<open>for(i = 0; i < idxs.size(); i += vec)\<close>. With \<open>vec = 0\<close> the first trip already
  fails on the division by the zero width, so the second test below is never reached; it
  is what makes the recursion well-founded.
\<close>

function load_loop :: "load_inst \<Rightarrow> nat \<Rightarrow> nat \<Rightarrow> load_group list \<Rightarrow> error + load_group list" where
  "load_loop x vec i groups =
     (if i < length (ld_idxs x) then
        (case load_group x vec i of
           Inl e \<Rightarrow> Inl e
         | Inr g \<Rightarrow>
             if vec = 0 then Inl Division_by_zero
             else load_loop x vec (i + vec) (groups @ [g]))
      else Inr groups)"
  by pat_completeness auto
termination
  by (relation "measure (\<lambda>(x, vec, i, groups). length (ld_idxs x) - i)") auto

declare load_loop.simps [simp del]

definition visit_load_inst :: "load_inst \<Rightarrow> error + load_group list" where
  "visit_load_inst x = bind_err (load_vec x) (\<lambda>vec. load_loop x vec 0 [])"

text \<open>
  The placeholders of an instruction with \<open>n_words\<close> results and operands \<open>args\<close> are
  \<open>$0\<close> to \<open>$<n_words + length args - 1>\<close>: the results first, then the operands in order.
  \<open>movs_in_range\<close> says that every fallback move that names a placeholder names one that
  exists.
\<close>

fun mov_in_range :: "nat \<Rightarrow> nat \<times> mov_src \<Rightarrow> bool" where
  "mov_in_range n (ii, Immediate c) = True"
| "mov_in_range n (ii, Operand k) = (k < n)"

fun movs_in_range :: "llvm_value \<Rightarrow> bool" where
  "movs_in_range (Call (Ld_global nwords wd in_off cm movs) args) =
     list_all (mov_in_range (nwords + length args)) movs"
| "movs_in_range v = True"

text \<open>
  A masked load of two 32-bit floats per lane, read as one vector of two words: the
  fallback of the first element is the constant 0.0, the fallback of the second element is
  a value computed at run time (as after a concatenation of a constant block and a
  computed one).
\<close>

definition mixed_fallback_load :: load_inst where
  "mixed_fallback_load =
     \<lparr>op_is_block_ty = True, alignment = 4,
      x_layout = Scanline \<lparr>get_order = [0], get_shape = [128], nts = [2], mts = [64]\<rparr>,
      ord0 = 0, primitive_size_in_bits = 32, elt_ty = FloatTy, cache = NONE,
      ld_idxs = [[Argument 10], [Argument 11]],
      ld_op_vals = [[Argument 10] \<mapsto> GetElementPtr (Argument 20) (ConstantInt 32 3),
                 [Argument 11] \<mapsto> Argument 21],
      masked = Some ([[Argument 10] \<mapsto> Argument 30, [Argument 11] \<mapsto> Argument 31],
                     [[Argument 10] \<mapsto> ConstantFP FloatTy 0, [Argument 11] \<mapsto> Argument 41])\<rparr>"

text \<open>The call that \<open>visit_load_inst\<close> emits for it.\<close>

definition mixed_fallback_call :: llvm_value where
  "mixed_fallback_call =
     Call (Ld_global 2 32 12 NONE [(0, Immediate 0), (1, Operand 5)])
       [Argument 30, Argument 20,
        BitCast (InsertElement (ConstantVector [UndefValue]) (Argument 41) 0) (IntegerTy 32)]"


text \<open>
  A load of 16-bit floats whose result has a matrix-unit layout, which is not a scanline
  layout: two index tuples, pointer alignment bound 4.
\<close>

definition mma_load :: load_inst where
  "mma_load =
     \<lparr>op_is_block_ty = True, alignment = 4, x_layout = Mma [1, 0],
      ord0 = 1, primitive_size_in_bits = 16, elt_ty = HalfTy, cache = CA,
      ld_idxs = [[Argument 10, Argument 12], [Argument 10, Argument 13]],
      ld_op_vals = [[Argument 10, Argument 12] \<mapsto> Argument 20,
                    [Argument 10, Argument 13] \<mapsto> Argument 21],
      masked = None\<rparr>"

section \<open>The index materializer\<close>

text \<open>
  An axis carries its contiguous run length, its coordinate list and the lane's position
  along it. The axis table \<open>axes_\<close> is filled when the layouts are visited; \<open>init_idx\<close>
  reads it with \<open>std::map::at\<close>, which throws on a missing key.
\<close>

record distributed_axis =
  ax_contiguous :: nat
  ax_values :: "llvm_value list"
  ax_thread_id :: llvm_value









text \<open>
  The index tuples: the loops nest from the last dimension of the order (outermost) to
  the first (innermost), and each tuple is created with null entries and then filled at
  the positions the order names.
\<close>

definition indices_1 :: "distributed_axis list \<Rightarrow> nat list \<Rightarrow> indices list" where
  "indices_1 axes ord = map (\<lambda>x0. [x0]) (ax_values (axes ! (ord ! 0)))"







section \<open>Reductions\<close>

text \<open>
  The operator of a reduction, \<open>R_ADD\<close> for the source's \<open>ADD\<close> and so on; \<open>Other_op\<close>
  stands for any value outside the enumeration, the \<open>default\<close> case of the two switches
  of \<open>visit_reduce_inst\<close>.
\<close>

datatype reduce_op = R_ADD | R_SUB | R_MAX | R_MIN | R_FADD | R_FSUB | R_FMAX | R_FMIN | Other_op

text \<open>
  \<open>ConstantInt::get(ty, V)\<close> takes \<open>V\<close> as an unsigned 64-bit integer (a negative C++
  \<open>int\<close> is sign-extended to it) and truncates it to the width of \<open>ty\<close>; integer constants
  are kept here by their signed value. \<open>ConstantFP::get(ty, x)\<close> is the constant of the
  floating-point type \<open>ty\<close> with value \<open>x\<close>; the values used are 0 and the two infinities,
  whose patterns are an all-ones exponent and a zero fraction.
\<close>

definition INT32_MIN :: int where "INT32_MIN = - (2 ^ 31)"
definition INT32_MAX :: int where "INT32_MAX = 2 ^ 31 - 1"

definition to_uint64 :: "int \<Rightarrow> int" where
  "to_uint64 n = n mod 2 ^ 64"

fun ConstantInt_get :: "llvm_type \<Rightarrow> int \<Rightarrow> error + llvm_value" where
  "ConstantInt_get (IntegerTy w) n = Inr (ConstantInt w (signed_take_bit (w - 1) (to_uint64 n)))"
| "ConstantInt_get ty n = Inl Invalid_type"

datatype fp_constant = Zero | Infinity | Neg_Infinity

fun exponent_bits :: "llvm_type \<Rightarrow> nat" where
  "exponent_bits HalfTy = 5"
| "exponent_bits FloatTy = 8"
| "exponent_bits DoubleTy = 11"
| "exponent_bits ty = 0"

definition fp_bits :: "llvm_type \<Rightarrow> fp_constant \<Rightarrow> nat" where
  "fp_bits ty x =
     (let inf = (2 ^ exponent_bits ty - 1) * 2 ^ (bit_width ty - 1 - exponent_bits ty)
      in case x of Zero \<Rightarrow> 0 | Infinity \<Rightarrow> inf | Neg_Infinity \<Rightarrow> 2 ^ (bit_width ty - 1) + inf)"

fun ConstantFP_get :: "llvm_type \<Rightarrow> fp_constant \<Rightarrow> error + llvm_value" where
  "ConstantFP_get (IntegerTy w) x = Inl Invalid_type"
| "ConstantFP_get (VectorTy t n) x = Inl Invalid_type"
| "ConstantFP_get ty x = Inr (ConstantFP ty (fp_bits ty x))"

text \<open>The neutral element: the second switch of \<open>visit_reduce_inst\<close>.\<close>

fun neutral :: "reduce_op \<Rightarrow> llvm_type \<Rightarrow> error + llvm_value" where
  "neutral R_ADD ty = ConstantInt_get ty 0"
| "neutral R_SUB ty = ConstantInt_get ty 0"
| "neutral R_MAX ty = ConstantInt_get ty INT32_MIN"
| "neutral R_MIN ty = ConstantInt_get ty INT32_MAX"
| "neutral R_FADD ty = ConstantFP_get ty Zero"
| "neutral R_FSUB ty = ConstantFP_get ty Zero"
| "neutral R_FMAX ty = ConstantFP_get ty Neg_Infinity"
| "neutral R_FMIN ty = ConstantFP_get ty Infinity"
| "neutral Other_op ty = Inl Unreachable"

text \<open>
  The accumulation function: the first switch. The instructions are created through the
  builder (which may fold or reassociate them; they are kept as written here). The builder
  reads the type of each operand, so that a null operand is a null dereference.
\<close>

fun acc_switch :: "reduce_op \<Rightarrow> llvm_value \<Rightarrow> llvm_value \<Rightarrow> error + llvm_value" where
  "acc_switch R_ADD x y = Inr (BinaryOperator Add x y)"
| "acc_switch R_SUB x y = Inr (BinaryOperator Sub x y)"
| "acc_switch R_MAX x y = Inr (Select (ICmp ICMP_SGE x y) x y)"
| "acc_switch R_MIN x y = Inr (Select (ICmp ICMP_SLE x y) x y)"
| "acc_switch R_FADD x y = Inr (BinaryOperator FAdd x y)"
| "acc_switch R_FSUB x y = Inr (BinaryOperator FSub x y)"
| "acc_switch R_FMAX x y = Inr (Intrinsic Maxnum [x, y])"
| "acc_switch R_FMIN x y = Inr (Intrinsic Minnum [x, y])"
| "acc_switch Other_op x y = Inl Unreachable"

definition do_acc :: "reduce_op \<Rightarrow> llvm_value \<Rightarrow> llvm_value \<Rightarrow> error + llvm_value" where
  "do_acc op x y =
     (if op \<noteq> Other_op \<and> (x = Nullptr \<or> y = Nullptr) then Inl Null_dereference
      else acc_switch op x y)"

text \<open>
  \<open>visit_reduce1d_inst\<close>, the loop that reduces within the thread:
  \<^verbatim>\<open>Value *acc = nullptr;\<close>
  \<^verbatim>\<open>for(indices_t idx: idxs_.at(arg)){ Value *val = vals_[arg][idx]; acc = !acc ? val : do_acc(acc, val); }\<close>
  The test is on the accumulator itself: as long as it is null it is replaced by the next
  value, whatever that value is.
\<close>

fun reduce_within_thread ::
  "(llvm_value \<Rightarrow> llvm_value \<Rightarrow> error + llvm_value) \<Rightarrow> llvm_value \<Rightarrow> llvm_value list
   \<Rightarrow> error + llvm_value" where
  "reduce_within_thread acc_fn acc [] = Inr acc"
| "reduce_within_thread acc_fn acc (val # vals) =
     (if acc = Nullptr then reduce_within_thread acc_fn val vals
      else
        (case acc_fn acc val of
           Inl e \<Rightarrow> Inl e
         | Inr acc' \<Rightarrow> reduce_within_thread acc_fn acc' vals))"

text \<open>
  Of the rest of \<open>visit_reduce1d_inst\<close> the model keeps the lane's accumulator after the
  loop, which the shuffles then combine across lanes (\<open>shfl_sync\<close> reads the type of the
  accumulator: a null accumulator is dereferenced there), and the value written to the
  shared-memory slot of every lane before the per-warp results are stored,
  \<open>store(neutral, gep(base, lane))\<close>. The neutral element occurs nowhere else in the
  function.
\<close>

record reduce1d =
  thread_acc :: llvm_value
  shared_fill :: llvm_value

definition visit_reduce1d_inst ::
  "(llvm_value \<Rightarrow> llvm_value \<Rightarrow> error + llvm_value) \<Rightarrow> llvm_value
   \<Rightarrow> (indices \<rightharpoonup> llvm_value) \<Rightarrow> indices list \<Rightarrow> error + reduce1d" where
  "visit_reduce1d_inst acc_fn neutral_v vals_arg idxs_arg =
     bind_err (reduce_within_thread acc_fn Nullptr (map (lookup vals_arg) idxs_arg)) (\<lambda>acc.
       if acc = Nullptr then Inl Null_dereference
       else Inr \<lparr>thread_acc = acc, shared_fill = neutral_v\<rparr>)"

text \<open>
  \<open>visit_reducend_inst\<close>, the loop that reduces within the thread. The accumulators are
  kept in a map keyed by the index tuple with the reduced coordinate replaced by \<open>i32(0)\<close>:
  \<^verbatim>\<open>indices_t pidx = idx; pidx[axis] = i32(0); Value *current = vals_[arg][idx];\<close>
  \<^verbatim>\<open>bool is_first = accs.find(pidx) == accs.end();\<close>
  \<^verbatim>\<open>accs[pidx] = is_first ? current : do_acc(accs[pidx], current);\<close>
  The write \<open>pidx[axis]\<close> is unchecked in the source; past the end it is \<open>Out_of_range\<close>
  here. The function takes the neutral element and does not use it. Of the rest of the
  function (the reduction across lanes through shared memory) nothing is modelled.
\<close>

fun reducend_within_thread ::
  "(llvm_value \<Rightarrow> llvm_value \<Rightarrow> error + llvm_value) \<Rightarrow> nat \<Rightarrow> (indices \<rightharpoonup> llvm_value)
   \<Rightarrow> indices list \<Rightarrow> (indices \<rightharpoonup> llvm_value) \<Rightarrow> error + (indices \<rightharpoonup> llvm_value)" where
  "reducend_within_thread acc_fn axis vals_arg [] accs = Inr accs"
| "reducend_within_thread acc_fn axis vals_arg (idx # idxs) accs =
     (if axis < length idx then
        (let pidx = idx[axis := ConstantInt 32 0];
             current = lookup vals_arg idx
         in case accs pidx of
              None \<Rightarrow> reducend_within_thread acc_fn axis vals_arg idxs (accs(pidx \<mapsto> current))
            | Some acc \<Rightarrow>
                (case acc_fn acc current of
                   Inl e \<Rightarrow> Inl e
                 | Inr acc' \<Rightarrow>
                     reducend_within_thread acc_fn axis vals_arg idxs (accs(pidx \<mapsto> acc'))))
      else Inl Out_of_range)"

definition visit_reducend_inst ::
  "(llvm_value \<Rightarrow> llvm_value \<Rightarrow> error + llvm_value) \<Rightarrow> llvm_value \<Rightarrow> nat
   \<Rightarrow> (indices \<rightharpoonup> llvm_value) \<Rightarrow> indices list \<Rightarrow> error + (indices \<rightharpoonup> llvm_value)" where
  "visit_reducend_inst acc_fn neutral_v axis vals_arg idxs_arg =
     reducend_within_thread acc_fn axis vals_arg idxs_arg Map.empty"

text \<open>
  \<open>visit_reduce_inst\<close>: the neutral element is chosen first, then the rank of the operand
  decides between the two lowerings.
\<close>

datatype reduce_lowering =
    Reduce_1d reduce1d
  | Reduce_nd "indices \<rightharpoonup> llvm_value"

definition visit_reduce_inst ::
  "reduce_op \<Rightarrow> llvm_type \<Rightarrow> nat \<Rightarrow> nat \<Rightarrow> (indices \<rightharpoonup> llvm_value) \<Rightarrow> indices list
   \<Rightarrow> error + reduce_lowering" where
  "visit_reduce_inst op ty tile_rank axis vals_arg idxs_arg =
     bind_err (neutral op ty) (\<lambda>neutral_v.
       if tile_rank = 1 then
         bind_err (visit_reduce1d_inst (do_acc op) neutral_v vals_arg idxs_arg)
           (\<lambda>r. Inr (Reduce_1d r))
       else
         bind_err (visit_reducend_inst (do_acc op) neutral_v axis vals_arg idxs_arg)
           (\<lambda>accs. Inr (Reduce_nd accs)))"

text \<open>The least and the greatest value of a signed integer of \<open>w\<close> bits.\<close>

definition int_min :: "nat \<Rightarrow> int" where "int_min w = - (2 ^ (w - 1))"
definition int_max :: "nat \<Rightarrow> int" where "int_max w = 2 ^ (w - 1) - 1"

text \<open>
  The left fold of a list that starts from the first element of the list, and has no
  value on the empty list.
\<close>

definition fold_first :: "('a \<Rightarrow> 'a \<Rightarrow> 'a) \<Rightarrow> 'a list \<Rightarrow> 'a option" where
  "fold_first f vs = (case vs of [] \<Rightarrow> None | v # vs' \<Rightarrow> Some (foldl f v vs'))"

section \<open>Swizzled shared-memory offsets\<close>

text \<open>
  Both paths that write a distributed value to a swizzled shared buffer start with the same
  computation of tile parameters from the layouts and the swizzle analysis, and then build,
  once per key, the offset of the pointer they write through. C++ \<open>int\<close> quantities are
  integers here: the tile parameters of a layout are small and not negative, so that no
  arithmetic on them overflows and the divisions that mix \<open>int\<close> with the \<open>unsigned\<close>
  \<open>in_vec\<close> agree with the integer ones. A zero divisor is an error. The emitted 32-bit
  instructions wrap around, and their unsigned division by zero has no defined result.
\<close>

definition udiv :: "i32 \<Rightarrow> i32 \<Rightarrow> i32 option" where
  "udiv a b = (if b = 0 then None else Some (a div b))"

definition urem :: "i32 \<Rightarrow> i32 \<Rightarrow> i32 option" where
  "urem a b = (if b = 0 then None else Some (a mod b))"

text \<open>
  What the two visitors read: the order of the shared output layout, the scanline layout of
  the operand, the swizzle parameters of the output layout and the shape of the result.
\<close>

record copy_inst =
  out_order :: "nat list"
  in_layout :: scanline_layout
  get_vec :: int
  get_per_phase :: int
  get_max_phase :: int
  shapes :: "nat list"

record tiles =
  in_vec :: int
  out_vec :: int
  min_vec :: int
  s :: int
  per_phase :: int
  max_phase :: int
  in_ld :: int
  n_shared_1 :: int
  n_shared_0 :: int

text \<open>The tile parameters of \<open>visit_masked_load_async_inst\<close>.\<close>

definition async_tiles :: "copy_inst \<Rightarrow> error + tiles" where
  "async_tiles x =
     (let in_order = get_order (in_layout x) in
      bind_err (at in_order 0) (\<lambda>o0.
      bind_err (at in_order 1) (\<lambda>o1.
      bind_err (if out_order x = in_order then
                  bind_err (at (nts (in_layout x)) o0) (\<lambda>n. Inr (int n))
                else Inr 1) (\<lambda>in_vec.
      let out_vec = get_vec x;
          min_vec = min out_vec in_vec in
      bind_err (c_div out_vec in_vec) (\<lambda>q.
      let s = max q 1;
          per_phase = get_per_phase x;
          max_phase = get_max_phase x in
      bind_err (at (get_shape (in_layout x)) o0) (\<lambda>shape0.
      bind_err (at (mts (in_layout x)) o0) (\<lambda>mts0.
      bind_err (c_div (int shape0) (int mts0)) (\<lambda>in_ld.
      bind_err (at (mts (in_layout x)) o1) (\<lambda>mts1.
      bind_err (c_div (per_phase * max_phase) (int mts1)) (\<lambda>q1.
      bind_err (c_div in_vec out_vec) (\<lambda>q0.
        Inr \<lparr>in_vec = in_vec, out_vec = out_vec, min_vec = min_vec, s = s,
             per_phase = per_phase, max_phase = max_phase, in_ld = in_ld,
             n_shared_1 = max q1 1, n_shared_0 = max q0 1\<rparr>)))))))))))"

text \<open>The tile parameters of \<open>visit_copy_to_shared_inst\<close>.\<close>

definition cts_tiles :: "copy_inst \<Rightarrow> error + tiles" where
  "cts_tiles cts =
     (let in_order = get_order (in_layout cts) in
      bind_err (at in_order 0) (\<lambda>o0.
      bind_err (at in_order 1) (\<lambda>o1.
      bind_err (if out_order cts = in_order then
                  bind_err (at (nts (in_layout cts)) o0) (\<lambda>n. Inr (int n))
                else Inr 1) (\<lambda>in_vec.
      let out_vec = get_vec cts;
          min_vec = min out_vec in_vec in
      bind_err (c_div out_vec in_vec) (\<lambda>q.
      let s = max q 1;
          per_phase = get_per_phase cts;
          max_phase = get_max_phase cts in
      bind_err (at (get_shape (in_layout cts)) o0) (\<lambda>shape0.
      bind_err (at (mts (in_layout cts)) o0) (\<lambda>mts0.
      bind_err (c_div (int shape0) (int mts0)) (\<lambda>in_ld.
      bind_err (at (mts (in_layout cts)) o1) (\<lambda>mts1.
      bind_err (c_div (per_phase * max_phase) (int mts1)) (\<lambda>q1.
      bind_err (c_div in_vec out_vec) (\<lambda>q0.
        Inr \<lparr>in_vec = in_vec, out_vec = out_vec, min_vec = min_vec, s = s,
             per_phase = per_phase, max_phase = max_phase, in_ld = in_ld,
             n_shared_1 = max q1 1, n_shared_0 = max q0 1\<rparr>)))))))))))"

text \<open>
  The offset of the pointer created for a key, as the value the emitted instructions
  compute from the run-time row and column coordinates \<open>idx[in_order[1]]\<close> and
  \<open>idx[in_order[0]]\<close>. In \<open>visit_masked_load_async_inst\<close>:
  \<^verbatim>\<open>phase = udiv(idx[in_order[1]], i32(per_phase)); phase = urem(phase, i32(max_phase));\<close>
  \<^verbatim>\<open>off_1 = mul(idx[in_order[1]], i32(shapes[in_order[0]]));\<close>
  \<^verbatim>\<open>off_0 = add(idx[in_order[0]], i32(key.second*out_vec)); off_0 = udiv(off_0, i32(min_vec));\<close>
  \<^verbatim>\<open>off_0 = add(mul(xor_(udiv(off_0, i32(s)), phase),i32(s)), urem(off_0, i32(s)));\<close>
  \<^verbatim>\<open>off_0 = mul(off_0 , i32(min_vec)); off = add(off_0, off_1);\<close>
\<close>

definition async_swizzle_off :: "tiles \<Rightarrow> int \<Rightarrow> int \<Rightarrow> i32 \<Rightarrow> i32 \<Rightarrow> i32 option" where
  "async_swizzle_off t shape0 key_second row col =
     Option.bind (udiv row (i32 (per_phase t))) (\<lambda>phase0.
     Option.bind (urem phase0 (i32 (max_phase t))) (\<lambda>phase.
     let off_1 = row * i32 shape0;
         off_0a = col + i32 (key_second * out_vec t) in
     Option.bind (udiv off_0a (i32 (min_vec t))) (\<lambda>off_0b.
     Option.bind (udiv off_0b (i32 (s t))) (\<lambda>q.
     Option.bind (urem off_0b (i32 (s t))) (\<lambda>r.
     let off_0c = (q XOR phase) * i32 (s t) + r;
         off_0d = off_0c * i32 (min_vec t)
     in Some (off_0d + off_1))))))"

text \<open>The same place in \<open>visit_copy_to_shared_inst\<close>.\<close>

definition cts_swizzle_off :: "tiles \<Rightarrow> int \<Rightarrow> int \<Rightarrow> i32 \<Rightarrow> i32 \<Rightarrow> i32 option" where
  "cts_swizzle_off t shape0 key_second row col =
     Option.bind (udiv row (i32 (per_phase t))) (\<lambda>phase0.
     Option.bind (urem phase0 (i32 (max_phase t))) (\<lambda>phase.
     let off_1 = row * i32 shape0;
         off_0a = col + i32 (key_second * out_vec t) in
     Option.bind (udiv off_0a (i32 (min_vec t))) (\<lambda>off_0b.
     Option.bind (udiv off_0b (i32 (s t))) (\<lambda>q.
     Option.bind (urem off_0b (i32 (s t))) (\<lambda>r.
     let off_0c = (q XOR phase) * i32 (s t) + r;
         off_0d = off_0c * i32 (min_vec t)
     in Some (off_0d + off_1))))))"

text \<open>
  The key of element \<open>i\<close> of the operand and the coordinates the key's pointer is built
  from: \<open>id = i / min_vec\<close>, \<open>id_0 = id % (in_ld/min_vec)\<close>, \<open>id_1 = id / (in_ld/min_vec)\<close>,
  \<open>key = {id_1 % n_shared_1, id_0 % n_shared_0}\<close>, and the index tuple is
  \<open>idxs_.at(arg).at(key.first*in_ld)\<close>, read at the positions \<open>in_order[1]\<close> and
  \<open>in_order[0]\<close>. The index tuples are given by the run-time values of their coordinates.
\<close>

definition copy_key :: "tiles \<Rightarrow> int \<Rightarrow> error + (int \<times> int)" where
  "copy_key t i =
     bind_err (c_div i (min_vec t)) (\<lambda>id.
     bind_err (c_div (in_ld t) (min_vec t)) (\<lambda>w.
     bind_err (c_mod id w) (\<lambda>id_0.
     bind_err (c_div id w) (\<lambda>id_1.
     bind_err (c_mod id_1 (n_shared_1 t)) (\<lambda>k1.
     bind_err (c_mod id_0 (n_shared_0 t)) (\<lambda>k0. Inr (k1, k0)))))))"

definition key_coordinates ::
  "copy_inst \<Rightarrow> tiles \<Rightarrow> i32 list list \<Rightarrow> int \<Rightarrow> error + (i32 \<times> i32 \<times> nat)" where
  "key_coordinates x t idxs key_first =
     (if key_first * in_ld t < 0 then Inl Out_of_range
      else
        bind_err (at idxs (nat (key_first * in_ld t))) (\<lambda>idx.
        bind_err (at (get_order (in_layout x)) 0) (\<lambda>o0.
        bind_err (at (get_order (in_layout x)) 1) (\<lambda>o1.
        bind_err (at idx o1) (\<lambda>row.
        bind_err (at idx o0) (\<lambda>col.
        bind_err (at (shapes x) o0) (\<lambda>shape0. Inr (row, col, shape0))))))))"

text \<open>
  The offset of the shared-memory pointer through which element \<open>i\<close> is written, in each
  visitor: the tile parameters, the key, the key's coordinates, the swizzled offset.
\<close>

definition async_pointer_offset :: "copy_inst \<Rightarrow> i32 list list \<Rightarrow> int \<Rightarrow> error + i32 option" where
  "async_pointer_offset x idxs i =
     bind_err (async_tiles x) (\<lambda>t.
     bind_err (copy_key t i) (\<lambda>(k1, k0).
     bind_err (key_coordinates x t idxs k1) (\<lambda>(row, col, shape0).
       Inr (async_swizzle_off t (int shape0) k0 row col))))"

definition cts_pointer_offset :: "copy_inst \<Rightarrow> i32 list list \<Rightarrow> int \<Rightarrow> error + i32 option" where
  "cts_pointer_offset cts idxs i =
     bind_err (cts_tiles cts) (\<lambda>t.
     bind_err (copy_key t i) (\<lambda>(k1, k0).
     bind_err (key_coordinates cts t idxs k1) (\<lambda>(row, col, shape0).
       Inr (cts_swizzle_off t (int shape0) k0 row col))))"

section \<open>Properties of the stage-index phis\<close>

lemma i32_eq_iff: "0 \<le> a \<Longrightarrow> a < 2^31 \<Longrightarrow> 0 \<le> b \<Longrightarrow> b < 2^31 \<Longrightarrow> (i32 a = i32 b) = (a = b)"
  unfolding i32_def
  by (simp add: word_of_int_eq_iff take_bit_int_eq_self)

lemma sint_i32: "0 \<le> a \<Longrightarrow> a < 2^31 \<Longrightarrow> sint (i32 a) = a"
  unfolding i32_def
  by (simp add: int_word_sint)

lemma i32_succ: "i32 a + i32 1 = i32 (a + 1)"
  by (simp add: i32_def)

lemma smem_idx_ret_mod:
  assumes "0 \<le> m" "m < n" "n < 2^31"
  shows "smem_idx_ret n (i32 m) = i32 ((m + 1) mod n)"
proof (cases "m = n - 1")
  case True
  then show ?thesis by (simp add: smem_idx_ret_def)
next
  case False
  with assms have lt: "m + 1 < n" by simp
  from assms False have "i32 m \<noteq> i32 (n - 1)"
    by (simp add: i32_eq_iff)
  then show ?thesis using lt assms by (simp add: smem_idx_ret_def i32_succ)
qed

lemma phi_after_mod:
  assumes "0 \<le> a" "a < n" "n < 2^31"
    and "init_incoming p = i32 a" "latch_incoming p = smem_idx_ret n"
  shows "phi_after p k = i32 ((a + int k) mod n)"
proof (induction k)
  case 0
  then show ?case using assms by simp
next
  case (Suc k)
  have "0 \<le> (a + int k) mod n" "(a + int k) mod n < n" using assms by simp_all
  then have "smem_idx_ret n (i32 ((a + int k) mod n)) = i32 (((a + int k) mod n + 1) mod n)"
    using assms(3) by (rule smem_idx_ret_mod)
  also have "((a + int k) mod n + 1) mod n = (a + int (Suc k)) mod n"
  proof -
    have "((a + int k) mod n + 1) mod n = (a + int k + 1) mod n"
      by (rule mod_add_left_eq)
    then show ?thesis by (simp add: ac_simps)
  qed
  finally show ?case using Suc assms(5) by simp
qed

lemma phi_after_range:
  assumes "0 \<le> a" "a < n" "n < 2^31"
    and "init_incoming p = i32 a" "latch_incoming p = smem_idx_ret n"
  shows "0 \<le> sint (phi_after p k) \<and> sint (phi_after p k) \<le> n - 1"
proof -
  have r: "0 \<le> (a + int k) mod n" "(a + int k) mod n < n" using assms by simp_all
  then have "sint (i32 ((a + int k) mod n)) = (a + int k) mod n"
    using assms(3) by (intro sint_i32) simp_all
  then show ?thesis using r phi_after_mod [OF assms, of k] by simp
qed

text \<open>
  Claim C2, as amended. For a stage count \<open>1 \<le> n < 2 ^ 31\<close> finalization succeeds on phi
  slots; the read index is seeded with 2 and the write index with \<open>n - 1\<close>; both advance
  by \<open>next = (idx == n - 1) ? 0 : idx + 1\<close>. Every value the write index reaches lies in
  \<open>[0, n - 1]\<close>, it is back at \<open>n - 1\<close> after \<open>n\<close> advances and at no earlier advance, and
  every value the read index reaches lies in \<open>[0, n - 1]\<close> provided \<open>3 \<le> n\<close>.
\<close>

theorem smem_idx_cycle:
  assumes n: "1 \<le> n" "n < 2^31"
  shows "\<exists>w r. finalize_write_smem_idx n PHINode_slot = Inr w
           \<and> finalize_read_smem_idx n PHINode_slot = Inr r
           \<and> init_incoming w = i32 (n - 1) \<and> init_incoming r = i32 2
           \<and> (\<forall>idx. latch_incoming w idx = (if idx = i32 (n - 1) then 0 else idx + 1))
           \<and> (\<forall>idx. latch_incoming r idx = (if idx = i32 (n - 1) then 0 else idx + 1))
           \<and> (\<forall>k. 0 \<le> sint (phi_after w k) \<and> sint (phi_after w k) \<le> n - 1)
           \<and> phi_after w (nat n) = i32 (n - 1)
           \<and> (\<forall>k. 0 < k \<and> k < nat n \<longrightarrow> phi_after w k \<noteq> i32 (n - 1))
           \<and> (3 \<le> n \<longrightarrow> (\<forall>k. 0 \<le> sint (phi_after r k) \<and> sint (phi_after r k) \<le> n - 1))"
proof -
  define w where "w = \<lparr>init_incoming = i32 (n - 1), latch_incoming = smem_idx_ret n\<rparr>"
  define r where "r = \<lparr>init_incoming = i32 2, latch_incoming = smem_idx_ret n\<rparr>"
  have fw: "finalize_write_smem_idx n PHINode_slot = Inr w"
    by (simp add: finalize_write_smem_idx_def finalize_smem_idx_def w_def)
  have fr: "finalize_read_smem_idx n PHINode_slot = Inr r"
    by (simp add: finalize_read_smem_idx_def finalize_smem_idx_def r_def)
  have wi: "init_incoming w = i32 (n - 1)" and wl: "latch_incoming w = smem_idx_ret n"
    by (simp_all add: w_def)
  have ri: "init_incoming r = i32 2" and rl: "latch_incoming r = smem_idx_ret n"
    by (simp_all add: r_def)
  have a: "0 \<le> n - 1" "n - 1 < n" using n by simp_all
  have step: "\<And>p idx. latch_incoming p = smem_idx_ret n \<Longrightarrow>
      latch_incoming p idx = (if idx = i32 (n - 1) then 0 else idx + 1)"
    by (simp add: smem_idx_ret_def i32_def)
  have wrange: "\<forall>k. 0 \<le> sint (phi_after w k) \<and> sint (phi_after w k) \<le> n - 1"
    using phi_after_range [OF a n(2) wi wl] by blast
  have wform: "\<And>k. phi_after w k = i32 ((n - 1 + int k) mod n)"
    by (rule phi_after_mod [OF a n(2) wi wl])
  have wback: "phi_after w (nat n) = i32 (n - 1)"
  proof -
    have "(n - 1 + int (nat n)) mod n = (n - 1 + n) mod n" using n by simp
    also have "\<dots> = (n - 1) mod n" by (rule mod_add_self2)
    also have "\<dots> = n - 1" by (rule mod_pos_pos_trivial) (use n in simp_all)
    finally have "(n - 1 + int (nat n)) mod n = n - 1" .
    then show ?thesis using wform [of "nat n"] by simp
  qed
  have wnot: "\<forall>k. 0 < k \<and> k < nat n \<longrightarrow> phi_after w k \<noteq> i32 (n - 1)"
  proof (intro allI impI)
    fix k assume k: "0 < k \<and> k < nat n"
    have "n - 1 + int k = int k - 1 + n" by simp
    then have "(n - 1 + int k) mod n = (int k - 1 + n) mod n" by (rule arg_cong)
    also have "\<dots> = (int k - 1) mod n" by (rule mod_add_self2)
    also have "\<dots> = int k - 1" by (rule mod_pos_pos_trivial) (use k in linarith)+
    finally have e: "(n - 1 + int k) mod n = int k - 1" .
    have "(i32 (int k - 1) = i32 (n - 1)) = (int k - 1 = n - 1)"
      by (rule i32_eq_iff) (use k n in linarith)+
    moreover have "int k - 1 \<noteq> n - 1" using k by linarith
    ultimately have "i32 (int k - 1) \<noteq> i32 (n - 1)" by simp
    then show "phi_after w k \<noteq> i32 (n - 1)" using wform [of k] e by simp
  qed
  have rrange: "3 \<le> n \<longrightarrow> (\<forall>k. 0 \<le> sint (phi_after r k) \<and> sint (phi_after r k) \<le> n - 1)"
  proof
    assume "3 \<le> n"
    then have b: "(0::int) \<le> 2" "2 < n" by simp_all
    show "\<forall>k. 0 \<le> sint (phi_after r k) \<and> sint (phi_after r k) \<le> n - 1"
      using phi_after_range [OF b n(2) ri rl] by blast
  qed
  show ?thesis
    using fw fr wi ri step [OF wl] step [OF rl] wrange wback wnot rrange by blast
qed

theorem smem_idx_cycle_witness: "(1::int) \<le> 4 \<and> (4::int) < 2 ^ 31 \<and>
  (\<exists>w r. finalize_write_smem_idx 4 PHINode_slot = Inr w
      \<and> finalize_read_smem_idx 4 PHINode_slot = Inr r
      \<and> sint (phi_after w 6) \<le> 3 \<and> phi_after w 4 = i32 3 \<and> phi_after w 2 \<noteq> i32 3
      \<and> sint (phi_after r 5) \<le> 3)"
proof -
  have h: "(1::int) \<le> 4" "(4::int) < 2 ^ 31" by simp_all
  from smem_idx_cycle [OF h] obtain w r where
    "finalize_write_smem_idx 4 PHINode_slot = Inr w"
    "finalize_read_smem_idx 4 PHINode_slot = Inr r"
    "\<forall>k. 0 \<le> sint (phi_after w k) \<and> sint (phi_after w k) \<le> 4 - 1"
    "phi_after w (nat 4) = i32 (4 - 1)"
    "\<forall>k. 0 < k \<and> k < nat 4 \<longrightarrow> phi_after w k \<noteq> i32 (4 - 1)"
    "(3::int) \<le> 4 \<longrightarrow> (\<forall>k. 0 \<le> sint (phi_after r k) \<and> sint (phi_after r k) \<le> 4 - 1)"
    by blast
  then show ?thesis using h by auto
qed


text \<open>
  Claim C2 as stated fails for two stages: the read index starts at 2, outside \<open>[0, 1]\<close>,
  and its first advance moves it to 3.
\<close>

theorem smem_idx_read_seed_counterexample:
  "finalize_read_smem_idx 2 PHINode_slot
     = Inr \<lparr>init_incoming = 2, latch_incoming = smem_idx_ret 2\<rparr>
   \<and> sint (phi_after \<lparr>init_incoming = 2, latch_incoming = smem_idx_ret 2\<rparr> 0) = 2
   \<and> sint (phi_after \<lparr>init_incoming = 2, latch_incoming = smem_idx_ret 2\<rparr> 1) = 3
   \<and> \<not> sint (phi_after \<lparr>init_incoming = 2, latch_incoming = smem_idx_ret 2\<rparr> 0) \<le> 2 - 1"
  by (simp add: finalize_read_smem_idx_def finalize_smem_idx_def smem_idx_ret_def i32_def)

section \<open>Properties of the double-buffer offset phi\<close>

lemma unsigned_mul_2_num_bytes:
  assumes "bits < 2 ^ 32"
  shows "unsigned_mul 2 (num_bytes bits) = 2 * (bits div 8)"
proof -
  have "bits div 8 < 2 ^ 29" using assms by simp
  then have "2 * (bits div 8) < 2 ^ 32" by simp
  then show ?thesis by (simp add: unsigned_mul_def num_bytes_def)
qed

lemma finalize_double_buffer_offset_total:
  assumes "unsigned_mul 2 (num_bytes bits) \<noteq> 0"
  shows "finalize_double_buffer_offset sz bits latch incoming =
     Inr (map (\<lambda>(b, v). (b, if v = latch then Negated_offset
           else Constant_offset (i32 (int (sz div unsigned_mul 2 (num_bytes bits)))))) incoming)"
  using assms by (induction incoming) auto

lemma map_of_map_snd:
  "map_of (map (\<lambda>(b, v). (b, f v)) xs) k = map_option f (map_of xs k)"
  by (induction xs) auto

lemma offset_run_latch:
  assumes "map_of incs lb = Some Negated_offset"
  shows "offset_run incs (replicate k lb) cur = Some ((- 1) ^ k * cur)"
  using assms by (induction k arbitrary: cur) (simp_all add: offset_enter_def)

text \<open>
  Claim C3. For a double-buffered layout whose element type is at least a byte wide, whose
  phi has a non-latch value on the edge from \<open>pre\<close> and the latch on the edge from \<open>lb\<close>:
  finalization succeeds, seeds the offset phi on \<open>pre\<close> with the per-slot stride (the buffer
  size in elements, halved) and on \<open>lb\<close> with the negation of the phi itself, so that after
  entering the loop and \<open>k\<close> trips over the latch edge the offset is \<open>(-1) ^ k\<close> times
  the stride.
\<close>

theorem double_buffer_offset_parity:
  assumes bits: "8 \<le> bits" "bits < 2 ^ 32"
    and pre: "map_of incoming pre = Some first" "first \<noteq> latch"
    and lb: "map_of incoming lb = Some latch"
  shows "\<exists>incs. finalize_double_buffer_offset sz bits latch incoming = Inr incs
           \<and> map_of incs pre = Some (Constant_offset (i32 (int ((sz div (bits div 8)) div 2))))
           \<and> map_of incs lb = Some Negated_offset
           \<and> (\<forall>k cur. offset_run incs (pre # replicate k lb) cur
                  = Some ((- 1) ^ k * i32 (int ((sz div (bits div 8)) div 2))))"
proof -
  let ?d = "unsigned_mul 2 (num_bytes bits)"
  let ?f = "\<lambda>v. if v = latch then Negated_offset else Constant_offset (i32 (int (sz div ?d)))"
  let ?incs = "map (\<lambda>(b, v). (b, ?f v)) incoming"
  have d: "?d = 2 * (bits div 8)" using bits(2) by (rule unsigned_mul_2_num_bytes)
  have "1 \<le> bits div 8" using bits(1) by simp
  then have nz: "?d \<noteq> 0" using d by simp
  have stride: "sz div ?d = (sz div (bits div 8)) div 2"
  proof -
    have "sz div ((bits div 8) * 2) = (sz div (bits div 8)) div 2" by (rule div_mult2_eq)
    then show ?thesis using d by (simp only: mult.commute)
  qed
  have fin: "finalize_double_buffer_offset sz bits latch incoming = Inr ?incs"
    using nz by (rule finalize_double_buffer_offset_total)
  have mo: "\<And>k. map_of ?incs k = map_option ?f (map_of incoming k)"
    by (rule map_of_map_snd)
  have p: "map_of ?incs pre = Some (Constant_offset (i32 (int ((sz div (bits div 8)) div 2))))"
    using mo [of pre] pre stride by simp
  have l: "map_of ?incs lb = Some Negated_offset"
    using mo [of lb] lb by simp
  have run: "\<forall>k cur. offset_run ?incs (pre # replicate k lb) cur
                  = Some ((- 1) ^ k * i32 (int ((sz div (bits div 8)) div 2)))"
    using p offset_run_latch [OF l] by (simp add: offset_enter_def)
  show ?thesis using fin p l run by blast
qed

theorem double_buffer_offset_parity_witness:
  "\<exists>incs. finalize_double_buffer_offset 4096 16 (1::nat) [(0::nat, 0), (1, 1)] = Inr incs
     \<and> offset_run incs [0, 1, 1, 1] 0 = Some (- 1024)
     \<and> offset_run incs [0, 1, 1] 0 = Some 1024"
proof -
  have h: "(8::nat) \<le> 16" "(16::nat) < 2 ^ 32"
    "map_of [(0::nat, 0::nat), (1, 1)] 0 = Some 0" "(0::nat) \<noteq> 1"
    "map_of [(0::nat, 0::nat), (1, 1)] 1 = Some 1" by simp_all
  from double_buffer_offset_parity [OF h, of 4096] obtain incs where
    f: "finalize_double_buffer_offset 4096 16 (1::nat) [(0::nat, 0), (1, 1)] = Inr incs"
    and r: "\<forall>k cur. offset_run incs (0 # replicate k 1) cur
                  = Some ((- 1) ^ k * i32 (int ((4096 div (16 div 8)) div 2)))"
    by blast
  have "offset_run incs (0 # replicate 3 1) 0 = Some (- 1024)"
    using r by (simp add: i32_def)
  moreover have "offset_run incs (0 # replicate 2 1) 0 = Some 1024"
    using r by (simp add: i32_def)
  ultimately show ?thesis using f by (auto simp: numeral_3_eq_3 numeral_2_eq_2)
qed

section \<open>Properties of the narrow floating-point conversions\<close>

lemma bind_err_simps [simp]:
  "bind_err (Inl e) f = Inl e" "bind_err (Inr x) f = f x"
  by (simp_all add: bind_err_def)

lemma fp32_to_fp8_cvt_zero:
  "constant_zero_float v \<Longrightarrow> fp32_to_fp8_cvt v = Inr (getInt8 0)"
  by (cases v) simp_all

lemma fp32_to_fp8_cvt_other:
  "\<not> constant_zero_float v \<Longrightarrow> v \<noteq> Nullptr \<Longrightarrow> fp32_to_fp8_cvt v = Inl Unsupported_cast"
  by (cases v) simp_all

lemma fp32_to_fp8_cvt_Inr:
  "fp32_to_fp8_cvt v = Inr r \<Longrightarrow> constant_zero_float v \<and> r = getInt8 0"
  by (cases v) (simp_all split: if_splits)

lemma fp32_to_fp8_cvt_Inl:
  "fp32_to_fp8_cvt v = Inl e \<Longrightarrow> e = Unsupported_cast \<or> e = Null_dereference"
  by (cases v) (simp_all split: if_splits)

lemma fp32x4_to_fp8x4_zero:
  assumes "constant_zero_float in0" "constant_zero_float in1"
    "constant_zero_float in2" "constant_zero_float in3"
  shows "fp32x4_to_fp8x4 in0 in1 in2 in3 = Inr (getInt8 0, getInt8 0, getInt8 0, getInt8 0)"
  using assms by (simp add: fp32x4_to_fp8x4_def fp32_to_fp8_cvt_zero)

lemma fp32x4_to_fp8x4_Inr:
  assumes "fp32x4_to_fp8x4 in0 in1 in2 in3 = Inr r"
  shows "constant_zero_float in0 \<and> constant_zero_float in1
       \<and> constant_zero_float in2 \<and> constant_zero_float in3"
proof -
  obtain r0 where r0: "fp32_to_fp8_cvt in0 = Inr r0"
    using assms by (cases "fp32_to_fp8_cvt in0") (simp_all add: fp32x4_to_fp8x4_def)
  obtain r1 where r1: "fp32_to_fp8_cvt in1 = Inr r1"
    using assms r0 by (cases "fp32_to_fp8_cvt in1") (simp_all add: fp32x4_to_fp8x4_def)
  obtain r2 where r2: "fp32_to_fp8_cvt in2 = Inr r2"
    using assms r0 r1 by (cases "fp32_to_fp8_cvt in2") (simp_all add: fp32x4_to_fp8x4_def)
  obtain r3 where r3: "fp32_to_fp8_cvt in3 = Inr r3"
    using assms r0 r1 r2 by (cases "fp32_to_fp8_cvt in3") (simp_all add: fp32x4_to_fp8x4_def)
  show ?thesis
    using r0 r1 r2 r3 by (blast dest: fp32_to_fp8_cvt_Inr)
qed

lemma fp32x4_to_fp8x4_Inl:
  assumes "fp32x4_to_fp8x4 in0 in1 in2 in3 = Inl e"
  shows "e = Unsupported_cast \<or> e = Null_dereference"
  using assms
  by (auto simp: fp32x4_to_fp8x4_def bind_err_def split: sum.splits dest: fp32_to_fp8_cvt_Inl)

lemma fp32x4_to_fp8x4_nonzero:
  assumes "\<not> (constant_zero_float in0 \<and> constant_zero_float in1
       \<and> constant_zero_float in2 \<and> constant_zero_float in3)"
    and "Nullptr \<notin> set [in0, in1, in2, in3]"
  shows "fp32x4_to_fp8x4 in0 in1 in2 in3 = Inl Unsupported_cast"
proof -
  have n: "in0 \<noteq> Nullptr" "in1 \<noteq> Nullptr" "in2 \<noteq> Nullptr" "in3 \<noteq> Nullptr"
    using assms(2) by auto
  have c: "\<And>v. v \<noteq> Nullptr \<Longrightarrow>
     fp32_to_fp8_cvt v = (if constant_zero_float v then Inr (getInt8 0) else Inl Unsupported_cast)"
    by (simp add: fp32_to_fp8_cvt_zero fp32_to_fp8_cvt_other)
  show ?thesis
    using assms(1) by (auto simp: fp32x4_to_fp8x4_def c [OF n(1)] c [OF n(2)] c [OF n(3)] c [OF n(4)])
qed

text \<open>
  Claim C10. The packed conversion from the 32-bit to the 8-bit format succeeds exactly
  when all four operands are floating-point constants equal to zero, and then yields four
  8-bit zeros; in every other case it fails, and on operands that are proper values it
  fails with the unsupported-cast error. No operand that is not a compile-time constant
  is ever converted.
\<close>

theorem fp32x4_to_fp8x4_only_constant_zero:
  "(constant_zero_float in0 \<and> constant_zero_float in1
      \<and> constant_zero_float in2 \<and> constant_zero_float in3
     \<longrightarrow> fp32x4_to_fp8x4 in0 in1 in2 in3 = Inr (getInt8 0, getInt8 0, getInt8 0, getInt8 0))
   \<and> (\<not> (constant_zero_float in0 \<and> constant_zero_float in1
      \<and> constant_zero_float in2 \<and> constant_zero_float in3)
     \<longrightarrow> (\<exists>e. fp32x4_to_fp8x4 in0 in1 in2 in3 = Inl e)
       \<and> (Nullptr \<notin> set [in0, in1, in2, in3]
           \<longrightarrow> fp32x4_to_fp8x4 in0 in1 in2 in3 = Inl Unsupported_cast))"
proof (intro conjI impI)
  assume "constant_zero_float in0 \<and> constant_zero_float in1
      \<and> constant_zero_float in2 \<and> constant_zero_float in3"
  then show "fp32x4_to_fp8x4 in0 in1 in2 in3 = Inr (getInt8 0, getInt8 0, getInt8 0, getInt8 0)"
    by (simp add: fp32x4_to_fp8x4_zero)
next
  assume a: "\<not> (constant_zero_float in0 \<and> constant_zero_float in1
      \<and> constant_zero_float in2 \<and> constant_zero_float in3)"
  show "\<exists>e. fp32x4_to_fp8x4 in0 in1 in2 in3 = Inl e"
  proof (cases "fp32x4_to_fp8x4 in0 in1 in2 in3")
    case (Inl e) then show ?thesis by blast
  next
    case (Inr r) then show ?thesis using a fp32x4_to_fp8x4_Inr by blast
  qed
next
  assume "\<not> (constant_zero_float in0 \<and> constant_zero_float in1
      \<and> constant_zero_float in2 \<and> constant_zero_float in3)"
    and "Nullptr \<notin> set [in0, in1, in2, in3]"
  then show "fp32x4_to_fp8x4 in0 in1 in2 in3 = Inl Unsupported_cast"
    by (rule fp32x4_to_fp8x4_nonzero)
qed

theorem fp32x4_to_fp8x4_only_constant_zero_witness:
  "fp32x4_to_fp8x4 (ConstantFP FloatTy 0) (ConstantFP FloatTy 0) (Argument 7) (ConstantFP FloatTy 0)
     = Inl Unsupported_cast
   \<and> fp32x4_to_fp8x4 (ConstantFP FloatTy 0) (ConstantFP FloatTy 0)
        (ConstantFP FloatTy 0x80000000) (ConstantFP FloatTy 0)
     = Inr (getInt8 0, getInt8 0, getInt8 0, getInt8 0)
   \<and> fp32x4_to_fp8x4 (ConstantFP FloatTy 0) (ConstantFP FloatTy 0x3f800000)
        (ConstantFP FloatTy 0) (ConstantFP FloatTy 0)
     = Inl Unsupported_cast"
  using fp32x4_to_fp8x4_only_constant_zero
          [of "ConstantFP FloatTy 0" "ConstantFP FloatTy 0" "Argument 7" "ConstantFP FloatTy 0"]
        fp32x4_to_fp8x4_only_constant_zero
          [of "ConstantFP FloatTy 0" "ConstantFP FloatTy 0" "ConstantFP FloatTy 0x80000000"
              "ConstantFP FloatTy 0"]
        fp32x4_to_fp8x4_only_constant_zero
          [of "ConstantFP FloatTy 0" "ConstantFP FloatTy 0x3f800000" "ConstantFP FloatTy 0"
              "ConstantFP FloatTy 0"]
  by (simp add: fp_equals_zero_def)

lemma lop3_b32_unfold:
  "lop3_b32 a b c lut =
     (if odd lut then lop3_row a b c 0 else 0) OR
     ((if odd (lut div 2) then lop3_row a b c 1 else 0) OR
     ((if odd (lut div 4) then lop3_row a b c 2 else 0) OR
     ((if odd (lut div 8) then lop3_row a b c 3 else 0) OR
     ((if odd (lut div 16) then lop3_row a b c 4 else 0) OR
     ((if odd (lut div 32) then lop3_row a b c 5 else 0) OR
     ((if odd (lut div 64) then lop3_row a b c 6 else 0) OR
     ((if odd (lut div 128) then lop3_row a b c 7 else 0) OR 0)))))))"
  by (simp add: lop3_b32_def)

lemma lop3_b32_c0: "lop3_b32 a b c 0xc0 = (a AND b AND NOT c) OR (a AND b AND c)"
  by (simp add: lop3_b32_unfold lop3_row_def)

lemma lop3_b32_f8:
  "lop3_b32 a b c 0xf8 = (NOT a AND b AND c) OR (a AND NOT b AND NOT c) OR (a AND NOT b AND c)
      OR (a AND b AND NOT c) OR (a AND b AND c)"
  by (simp add: lop3_b32_unfold lop3_row_def ac_simps)


lemma lop3_b32_and: "lop3_b32 a b c 0xc0 = a AND b"
  unfolding lop3_b32_c0 by (rule bit_eqI) (auto simp: bit_simps)

lemma lop3_b32_or_and: "lop3_b32 a b c 0xf8 = a OR (b AND c)"
  unfolding lop3_b32_f8 by (rule bit_eqI) (auto simp: bit_simps)

lemma prmt_b32_zero: "prmt_b32 0 0 c = 0"
  by (simp add: prmt_b32_def prmt_byte_def)

lemma fp8x4_to_fp16x4_ptx_zero: "fp8x4_to_fp16x4_ptx 0 = (0, 0)"
  by (simp add: fp8x4_to_fp16x4_ptx_def prmt_b32_zero lop3_b32_and lop3_b32_or_and shr_b32_def)

lemma upt_2: "[0..<2] = [0, Suc 0]"
  by (simp add: numeral_2_eq_2)

lemma unflatten_half2:
  "unflatten (VectorTy HalfTy 2) n = RVector [Bits 16 (n mod 2 ^ 16), Bits 16 (n div 2 ^ 16 mod 2 ^ 16)]"
  by (simp add: upt_2)

lemma eval_asm_zero:
  "eval_asm Fp8x4_to_fp16x4_ptx [Bits 32 0] =
     Some (RStruct [RVector [Bits 16 0, Bits 16 0], RVector [Bits 16 0, Bits 16 0]])"
  by (simp add: eval_asm_def fp8x4_to_fp16x4_ptx_zero unflatten_half2 del: unflatten.simps)

lemma eval_call_zero:
  "eval env (Call Fp8x4_to_fp16x4_ptx [ConstantInt 32 0]) =
     Some (RStruct [RVector [Bits 16 0, Bits 16 0], RVector [Bits 16 0, Bits 16 0]])"
  by (simp add: eval_asm_zero)

lemma fpext_half_float_zero: "fpext_half_float 0 = 0"
  by (simp add: fpext_half_float_def)


lemma UndefValue_vec_4:
  "UndefValue_vec 4 = ConstantVector [UndefValue, UndefValue, UndefValue, UndefValue]"
  by (simp add: UndefValue_vec_def eval_nat_numeral)

lemma fp8x4_to_fp16x4_zero:
  "fp8x4_to_fp16x4 (getInt8 0) (getInt8 0) (getInt8 0) (getInt8 0) =
     (ExtractElement (ExtractValue (Call Fp8x4_to_fp16x4_ptx [ConstantInt 32 0]) 0) 0,
      ExtractElement (ExtractValue (Call Fp8x4_to_fp16x4_ptx [ConstantInt 32 0]) 0) 1,
      ExtractElement (ExtractValue (Call Fp8x4_to_fp16x4_ptx [ConstantInt 32 0]) 1) 0,
      ExtractElement (ExtractValue (Call Fp8x4_to_fp16x4_ptx [ConstantInt 32 0]) 1) 1)"
  by (simp add: fp8x4_to_fp16x4_def UndefValue_vec_4 getInt8_def insert_elt_def bit_cast_def
      call_def extract_val_def extract_elt_def Let_def)

lemma eval_fp16_zero:
  "i < 2 \<Longrightarrow> j < 2 \<Longrightarrow>
   eval env (ExtractElement (ExtractValue (Call Fp8x4_to_fp16x4_ptx [ConstantInt 32 0]) i) j)
     = Some (Bits 16 0)"
  by (simp add: eval_call_zero less_2_cases_iff del: eval.simps(14)) auto

lemma eval_fp32_zero:
  "i < 2 \<Longrightarrow> j < 2 \<Longrightarrow>
   eval env (FPExt (ExtractElement (ExtractValue (Call Fp8x4_to_fp16x4_ptx [ConstantInt 32 0]) i) j)
       FloatTy)
     = Some (Bits 32 0)"
  using eval_fp16_zero [of i j env] by (simp add: fpext_half_float_zero del: eval.simps(10))

text \<open>
  Claim C5. For four operands that are floating-point constants equal to zero, the
  conversion to the 8-bit format succeeds, and converting its results back, to the 16-bit
  format by the sign-strip, shift, sign-restore fragment and on to the 32-bit format,
  evaluates to the all-zero bit pattern at each of the four positions.
\<close>

theorem fp8_round_trip_zero:
  assumes "constant_zero_float in0" "constant_zero_float in1"
    "constant_zero_float in2" "constant_zero_float in3"
  shows "\<exists>c0 c1 c2 c3 h0 h1 h2 h3 f0 f1 f2 f3.
      fp32x4_to_fp8x4 in0 in1 in2 in3 = Inr (c0, c1, c2, c3)
    \<and> fp8x4_to_fp16x4 c0 c1 c2 c3 = (h0, h1, h2, h3)
    \<and> map (eval env) [h0, h1, h2, h3]
         = [Some (Bits 16 0), Some (Bits 16 0), Some (Bits 16 0), Some (Bits 16 0)]
    \<and> fp8x4_to_fp32x4 c0 c1 c2 c3 = (f0, f1, f2, f3)
    \<and> map (eval env) [f0, f1, f2, f3]
         = [Some (Bits 32 0), Some (Bits 32 0), Some (Bits 32 0), Some (Bits 32 0)]"
proof -
  let ?r = "Call Fp8x4_to_fp16x4_ptx [ConstantInt 32 0]"
  let ?h = "\<lambda>i j. ExtractElement (ExtractValue ?r i) j"
  have c: "fp32x4_to_fp8x4 in0 in1 in2 in3 = Inr (getInt8 0, getInt8 0, getInt8 0, getInt8 0)"
    using assms by (rule fp32x4_to_fp8x4_zero)
  have h: "fp8x4_to_fp16x4 (getInt8 0) (getInt8 0) (getInt8 0) (getInt8 0)
             = (?h 0 0, ?h 0 1, ?h 1 0, ?h 1 1)"
    by (rule fp8x4_to_fp16x4_zero)
  have f: "fp8x4_to_fp32x4 (getInt8 0) (getInt8 0) (getInt8 0) (getInt8 0)
             = (FPExt (?h 0 0) FloatTy, FPExt (?h 0 1) FloatTy,
                FPExt (?h 1 0) FloatTy, FPExt (?h 1 1) FloatTy)"
    by (simp add: fp8x4_to_fp32x4_def h cast_FPExt_def)
  have eh: "map (eval env) [?h 0 0, ?h 0 1, ?h 1 0, ?h 1 1]
         = [Some (Bits 16 0), Some (Bits 16 0), Some (Bits 16 0), Some (Bits 16 0)]"
    by (simp add: eval_fp16_zero del: eval.simps)
  have ef: "map (eval env) [FPExt (?h 0 0) FloatTy, FPExt (?h 0 1) FloatTy,
                FPExt (?h 1 0) FloatTy, FPExt (?h 1 1) FloatTy]
         = [Some (Bits 32 0), Some (Bits 32 0), Some (Bits 32 0), Some (Bits 32 0)]"
    by (simp add: eval_fp32_zero del: eval.simps)
  show ?thesis
    by (intro exI conjI) (rule c, rule h, rule eh, rule f, rule ef)
qed

theorem fp8_round_trip_zero_witness:
  "\<exists>c0 c1 c2 c3 h0 h1 h2 h3 f0 f1 f2 f3.
      fp32x4_to_fp8x4 (ConstantFP FloatTy 0) (ConstantFP FloatTy 0)
          (ConstantFP FloatTy 0) (ConstantFP FloatTy 0) = Inr (c0, c1, c2, c3)
    \<and> fp8x4_to_fp16x4 c0 c1 c2 c3 = (h0, h1, h2, h3)
    \<and> map (eval (\<lambda>i. RUndef)) [h0, h1, h2, h3]
         = [Some (Bits 16 0), Some (Bits 16 0), Some (Bits 16 0), Some (Bits 16 0)]
    \<and> fp8x4_to_fp32x4 c0 c1 c2 c3 = (f0, f1, f2, f3)
    \<and> map (eval (\<lambda>i. RUndef)) [f0, f1, f2, f3]
         = [Some (Bits 32 0), Some (Bits 32 0), Some (Bits 32 0), Some (Bits 32 0)]"
proof -
  have z: "constant_zero_float (ConstantFP FloatTy 0)"
    by (simp add: fp_equals_zero_def)
  show ?thesis by (rule fp8_round_trip_zero [OF z z z z])
qed

section \<open>Properties of the cast lowering\<close>

lemma at_Inl: "at xs i = Inl e \<Longrightarrow> e = Out_of_range"
  by (simp add: at_def split: if_splits)

lemma at_Inr: "i < length xs \<Longrightarrow> at xs i = Inr (xs ! i)"
  by (simp add: at_def)

lemma bind_err_Inl:
  "bind_err r f = Inl e \<Longrightarrow> r = Inl e \<or> (\<exists>x. r = Inr x \<and> f x = Inl e)"
  by (cases r) simp_all

lemma cast_cvt_Inl:
  "cast_cvt op_sca_ty ret_sca_ty a b c d = Inl e \<Longrightarrow>
     e = Unsupported_conversion \<or> e = Unsupported_cast \<or> e = Null_dereference"
  by (auto simp: cast_cvt_def split: if_splits dest: fp32x4_to_fp8x4_Inl)

lemma cast_group_Inl:
  assumes "cast_group op_sca_ty ret_sca_ty vals_op x_idxs op_idxs i = Inl e"
  shows "e \<noteq> Unsupported_fp32_to_fp8_conversion"
  using assms unfolding cast_group_def
  by (auto dest!: bind_err_Inl at_Inl cast_cvt_Inl split: prod.splits)

lemma cast_loop_Inl:
  "cast_loop op_sca_ty ret_sca_ty vals_op x_idxs op_idxs i stored = Inl e \<Longrightarrow>
     e \<noteq> Unsupported_fp32_to_fp8_conversion"
proof (induction op_sca_ty ret_sca_ty vals_op x_idxs op_idxs i stored rule: cast_loop.induct)
  case (1 op_sca_ty ret_sca_ty vals_op x_idxs op_idxs i stored)
  show ?case
  proof (cases "i < length x_idxs")
    case False
    with "1.prems" show ?thesis
      by (simp add: cast_loop.simps [of op_sca_ty ret_sca_ty vals_op x_idxs op_idxs i stored])
  next
    case True
    show ?thesis
    proof (cases "cast_group op_sca_ty ret_sca_ty vals_op x_idxs op_idxs i")
      case (Inl e')
      with True "1.prems" have "e = e'"
        by (simp add: cast_loop.simps [of op_sca_ty ret_sca_ty vals_op x_idxs op_idxs i stored])
      with Inl show ?thesis by (auto dest: cast_group_Inl)
    next
      case (Inr entries)
      with True "1.prems" have
        "cast_loop op_sca_ty ret_sca_ty vals_op x_idxs op_idxs (i + 4) (stored @ entries) = Inl e"
        by (simp add: cast_loop.simps [of op_sca_ty ret_sca_ty vals_op x_idxs op_idxs i stored])
      with "1.IH" [OF True Inr] show ?thesis by simp
    qed
  qed
qed

lemma cast_loop_groups:
  assumes len: "length x_idxs = 4 * n"
    and groups: "\<forall>g<n. cast_group op_sca_ty ret_sca_ty vals_op x_idxs op_idxs (4 * g) = Inr (E g)"
  shows "j \<le> n \<Longrightarrow>
     cast_loop op_sca_ty ret_sca_ty vals_op x_idxs op_idxs (4 * j) stored
       = Inr (stored @ concat (map E [j..<n]))"
proof (induction "n - j" arbitrary: j stored)
  case 0
  then have "j = n" by simp
  then show ?case using len
    by (simp add: cast_loop.simps [of op_sca_ty ret_sca_ty vals_op x_idxs op_idxs "4 * n" stored])
next
  case (Suc d)
  then have lt: "j < n" by simp
  then have g: "cast_group op_sca_ty ret_sca_ty vals_op x_idxs op_idxs (4 * j) = Inr (E j)"
    using groups by simp
  have d: "d = n - Suc j" using Suc.hyps(2) by simp
  have le: "Suc j \<le> n" using lt by simp
  have "cast_loop op_sca_ty ret_sca_ty vals_op x_idxs op_idxs (4 * j) stored
      = cast_loop op_sca_ty ret_sca_ty vals_op x_idxs op_idxs (4 * j + 4) (stored @ E j)"
    using lt len g
    by (simp add: cast_loop.simps [of op_sca_ty ret_sca_ty vals_op x_idxs op_idxs "4 * j" stored])
  also have "4 * j + 4 = 4 * Suc j" by simp
  also have "cast_loop op_sca_ty ret_sca_ty vals_op x_idxs op_idxs (4 * Suc j) (stored @ E j)
      = Inr ((stored @ E j) @ concat (map E [Suc j..<n]))"
    using Suc.hyps(1) [OF d le] .
  also have "(stored @ E j) @ concat (map E [Suc j..<n]) = stored @ concat (map E [j..<n])"
    using lt by (simp add: upt_conv_Cons)
  finally show ?case .
qed

lemma cast_group_fp16:
  assumes "length x_idxs = 4 * n" "length op_idxs = 4 * n" "g < n"
  shows "cast_group FP8_ty FP16_ty vals_op x_idxs op_idxs (4 * g)
           = Inr (fp16_group vals_op x_idxs op_idxs g)"
proof -
  have "4 * g + 3 < 4 * n" using assms(3) by simp
  then have b: "4 * g < length x_idxs" "4 * g + 1 < length x_idxs" "4 * g + 2 < length x_idxs"
    "4 * g + 3 < length x_idxs" "4 * g < length op_idxs" "4 * g + 1 < length op_idxs"
    "4 * g + 2 < length op_idxs" "4 * g + 3 < length op_idxs"
    using assms(1,2) by simp_all
  show ?thesis
    using b by (simp add: cast_group_def fp16_group_def at_Inr cast_cvt_def split: prod.splits)
qed

lemma cast_group_fp8_zero:
  assumes "length x_idxs = 4 * n" "length op_idxs = 4 * n" "g < n"
    and z: "\<forall>i<4 * n. constant_zero_float (lookup vals_op (op_idxs ! i))"
  shows "cast_group FP32_ty FP8_ty vals_op x_idxs op_idxs (4 * g)
           = Inr [(x_idxs ! (4 * g), getInt8 0), (x_idxs ! (4 * g + 1), getInt8 0),
                  (x_idxs ! (4 * g + 2), getInt8 0), (x_idxs ! (4 * g + 3), getInt8 0)]"
proof -
  have lt: "4 * g + 3 < 4 * n" using assms(3) by simp
  then have b: "4 * g < length x_idxs" "4 * g + 1 < length x_idxs" "4 * g + 2 < length x_idxs"
    "4 * g + 3 < length x_idxs" "4 * g < length op_idxs" "4 * g + 1 < length op_idxs"
    "4 * g + 2 < length op_idxs" "4 * g + 3 < length op_idxs"
    using assms(1,2) by simp_all
  have c: "constant_zero_float (lookup vals_op (op_idxs ! (4 * g)))"
    "constant_zero_float (lookup vals_op (op_idxs ! (4 * g + 1)))"
    "constant_zero_float (lookup vals_op (op_idxs ! (4 * g + 2)))"
    "constant_zero_float (lookup vals_op (op_idxs ! (4 * g + 3)))"
    using z lt by simp_all
  show ?thesis
    using b fp32x4_to_fp8x4_zero [OF c] by (simp add: cast_group_def at_Inr cast_cvt_def)
qed

lemma cast_group_fp8_error:
  assumes "length x_idxs = 4 * n" "length op_idxs = 4 * n" "g < n"
    and nn: "\<forall>i<4 * n. lookup vals_op (op_idxs ! i) \<noteq> Nullptr"
    and nz: "\<not> (constant_zero_float (lookup vals_op (op_idxs ! (4 * g)))
        \<and> constant_zero_float (lookup vals_op (op_idxs ! (4 * g + 1)))
        \<and> constant_zero_float (lookup vals_op (op_idxs ! (4 * g + 2)))
        \<and> constant_zero_float (lookup vals_op (op_idxs ! (4 * g + 3))))"
  shows "cast_group FP32_ty FP8_ty vals_op x_idxs op_idxs (4 * g) = Inl Unsupported_cast"
proof -
  have lt: "4 * g + 3 < 4 * n" using assms(3) by simp
  then have b: "4 * g < length op_idxs" "4 * g + 1 < length op_idxs"
    "4 * g + 2 < length op_idxs" "4 * g + 3 < length op_idxs"
    using assms(2) by simp_all
  have "4 * g < 4 * n" "4 * g + 1 < 4 * n" "4 * g + 2 < 4 * n" using lt by simp_all
  then have "lookup vals_op (op_idxs ! (4 * g)) \<noteq> Nullptr"
    "lookup vals_op (op_idxs ! (4 * g + 1)) \<noteq> Nullptr"
    "lookup vals_op (op_idxs ! (4 * g + 2)) \<noteq> Nullptr"
    "lookup vals_op (op_idxs ! (4 * g + 3)) \<noteq> Nullptr"
    using nn lt by blast+
  then have "Nullptr \<notin> set [lookup vals_op (op_idxs ! (4 * g)), lookup vals_op (op_idxs ! (4 * g + 1)),
      lookup vals_op (op_idxs ! (4 * g + 2)), lookup vals_op (op_idxs ! (4 * g + 3))]"
    by auto
  with nz have "fp32x4_to_fp8x4 (lookup vals_op (op_idxs ! (4 * g)))
      (lookup vals_op (op_idxs ! (4 * g + 1))) (lookup vals_op (op_idxs ! (4 * g + 2)))
      (lookup vals_op (op_idxs ! (4 * g + 3))) = Inl Unsupported_cast"
    by (rule fp32x4_to_fp8x4_nonzero)
  then show ?thesis
    using b by (simp add: cast_group_def at_Inr cast_cvt_def)
qed

lemma cast_loop_error:
  assumes len: "length x_idxs = 4 * n"
    and groups: "\<forall>g<n. cast_group op_sca_ty ret_sca_ty vals_op x_idxs op_idxs (4 * g) = Inr (E g)
                  \<or> cast_group op_sca_ty ret_sca_ty vals_op x_idxs op_idxs (4 * g) = Inl e"
  shows "\<exists>g. j \<le> g \<and> g < n
           \<and> cast_group op_sca_ty ret_sca_ty vals_op x_idxs op_idxs (4 * g) = Inl e \<Longrightarrow>
     cast_loop op_sca_ty ret_sca_ty vals_op x_idxs op_idxs (4 * j) stored = Inl e"
proof (induction "n - j" arbitrary: j stored)
  case 0
  then show ?case by auto
next
  case (Suc d)
  then have lt: "j < n" by simp
  have d: "d = n - Suc j" using Suc.hyps(2) by simp
  show ?case
  proof (cases "cast_group op_sca_ty ret_sca_ty vals_op x_idxs op_idxs (4 * j)")
    case (Inl e')
    then have "e' = e" using groups lt by auto
    then show ?thesis
      using lt len Inl
      by (simp add: cast_loop.simps [of op_sca_ty ret_sca_ty vals_op x_idxs op_idxs "4 * j" stored])
  next
    case (Inr entries)
    from Suc.prems obtain g where g: "j \<le> g" "g < n"
      "cast_group op_sca_ty ret_sca_ty vals_op x_idxs op_idxs (4 * g) = Inl e" by blast
    then have "g \<noteq> j" using Inr by auto
    then have "\<exists>g. Suc j \<le> g \<and> g < n
           \<and> cast_group op_sca_ty ret_sca_ty vals_op x_idxs op_idxs (4 * g) = Inl e"
      using g by (intro exI [of _ g]) simp
    then have "cast_loop op_sca_ty ret_sca_ty vals_op x_idxs op_idxs (4 * Suc j) (stored @ entries)
        = Inl e"
      using Suc.hyps(1) [OF d] by blast
    moreover have "cast_loop op_sca_ty ret_sca_ty vals_op x_idxs op_idxs (4 * j) stored
      = cast_loop op_sca_ty ret_sca_ty vals_op x_idxs op_idxs (4 * j + 4) (stored @ entries)"
      using lt len Inr
      by (simp add: cast_loop.simps [of op_sca_ty ret_sca_ty vals_op x_idxs op_idxs "4 * j" stored])
    moreover have "4 * j + 4 = 4 * Suc j" by simp
    ultimately show ?thesis by simp
  qed
qed

lemma concat_groups_map:
  "length xs = 4 * n \<Longrightarrow>
   concat (map (\<lambda>g. [f (xs ! (4 * g)), f (xs ! (4 * g + 1)), f (xs ! (4 * g + 2)),
                      f (xs ! (4 * g + 3))]) [0..<n]) = map f xs"
proof (induction n arbitrary: xs)
  case 0
  then show ?case by simp
next
  case (Suc n)
  then have "length xs = Suc (Suc (Suc (Suc (4 * n))))" by simp
  then obtain a b c d rest where xs: "xs = a # b # c # d # rest" and r: "length rest = 4 * n"
    by (metis length_Suc_conv)
  have u: "[0..<Suc n] = 0 # map Suc [0..<n]"
    by (simp add: upt_conv_Cons map_Suc_upt del: upt_Suc)
  have "concat (map (\<lambda>g. [f (xs ! (4 * g)), f (xs ! (4 * g + 1)), f (xs ! (4 * g + 2)),
                      f (xs ! (4 * g + 3))]) (map Suc [0..<n]))
      = concat (map (\<lambda>g. [f (rest ! (4 * g)), f (rest ! (4 * g + 1)), f (rest ! (4 * g + 2)),
                      f (rest ! (4 * g + 3))]) [0..<n])"
    by (simp add: xs comp_def ac_simps)
  also have "\<dots> = map f rest" using r by (rule Suc.IH)
  finally show ?case unfolding u by (simp add: xs)
qed

lemma cast_loop_unsupported_conversion:
  assumes "\<not> (op_sca_ty = FP32_ty \<and> ret_sca_ty = FP8_ty)"
    "\<not> (op_sca_ty = FP8_ty \<and> ret_sca_ty = FP16_ty)"
    and "x_idxs \<noteq> []" "4 \<le> length op_idxs"
  shows "cast_loop op_sca_ty ret_sca_ty vals_op x_idxs op_idxs 0 [] = Inl Unsupported_conversion"
proof -
  have "cast_cvt op_sca_ty ret_sca_ty a b c d = Inl Unsupported_conversion" for a b c d
    using assms(1,2) by (auto simp: cast_cvt_def)
  moreover have "at op_idxs k = Inr (op_idxs ! k)" if "k < 4" for k
    using assms(4) that by (simp add: at_def)
  ultimately have "cast_group op_sca_ty ret_sca_ty vals_op x_idxs op_idxs 0
      = Inl Unsupported_conversion"
    by (simp add: cast_group_def)
  then show ?thesis
    using assms(3)
    by (simp add: cast_loop.simps [of op_sca_ty ret_sca_ty vals_op x_idxs op_idxs 0 "[]"])
qed

lemma all_less_4: "(\<forall>i<4. P i) = (P 0 \<and> P 1 \<and> P 2 \<and> P (3::nat))"
proof -
  have "\<And>i::nat. i < 4 \<longleftrightarrow> i = 0 \<or> i = 1 \<or> i = 2 \<or> i = 3" by arith
  then show ?thesis by auto
qed

text \<open>
  Claim C4, as amended. For a cast to or from the 8-bit format whose result has a scanline
  layout with innermost run length \<open>contiguous\<close>: the lowering raises the error
  \<open>unsupported fp32 -> fp8 conversion\<close> if and only if \<open>contiguous\<close> is not a multiple of 4.
  When it is a multiple of 4 the conversion runs over the groups of four consecutive
  indices of the \<open>4 n\<close> indices. From the 8-bit to the 16-bit format it stores, group
  after group, the four results of the packed conversion. From the 32-bit to the 8-bit
  format it stores the 8-bit constant 0 under every index when every operand is a
  floating-point constant equal to zero, and raises \<open>unsupported cast\<close> when some operand
  is not (the operands being proper values). For every other pair of types it raises
  \<open>unsupported conversion\<close> as soon as there is an index to convert.
\<close>

theorem visit_cast_inst_fp8_run_length:
  assumes fp8: "ret_sca_ty = FP8_ty \<or> op_sca_ty = FP8_ty"
    and ld: "at (layout_order layout) 0 = Inr ld"
    and sl: "to_scanline layout = Inr sl"
    and contiguous: "at (nts sl) ld = Inr contiguous"
  shows "(contiguous mod 4 \<noteq> 0 \<longrightarrow>
            visit_cast_inst ret_sca_ty op_sca_ty layout x_idxs op_idxs vals_op
              = Inl Unsupported_fp32_to_fp8_conversion)
       \<and> (visit_cast_inst ret_sca_ty op_sca_ty layout x_idxs op_idxs vals_op
              = Inl Unsupported_fp32_to_fp8_conversion \<longrightarrow> contiguous mod 4 \<noteq> 0)
       \<and> (contiguous mod 4 = 0 \<and> op_sca_ty = FP8_ty \<and> ret_sca_ty = FP16_ty
            \<and> length x_idxs = 4 * n \<and> length op_idxs = 4 * n \<longrightarrow>
            visit_cast_inst ret_sca_ty op_sca_ty layout x_idxs op_idxs vals_op
              = Inr (Some (concat (map (fp16_group vals_op x_idxs op_idxs) [0..<n]))))
       \<and> (contiguous mod 4 = 0 \<and> op_sca_ty = FP32_ty \<and> ret_sca_ty = FP8_ty
            \<and> length x_idxs = 4 * n \<and> length op_idxs = 4 * n
            \<and> (\<forall>i<4 * n. constant_zero_float (lookup vals_op (op_idxs ! i))) \<longrightarrow>
            visit_cast_inst ret_sca_ty op_sca_ty layout x_idxs op_idxs vals_op
              = Inr (Some (map (\<lambda>idx. (idx, getInt8 0)) x_idxs)))
       \<and> (contiguous mod 4 = 0 \<and> op_sca_ty = FP32_ty \<and> ret_sca_ty = FP8_ty
            \<and> length x_idxs = 4 * n \<and> length op_idxs = 4 * n
            \<and> (\<forall>i<4 * n. lookup vals_op (op_idxs ! i) \<noteq> Nullptr)
            \<and> (\<exists>i<4 * n. \<not> constant_zero_float (lookup vals_op (op_idxs ! i))) \<longrightarrow>
            visit_cast_inst ret_sca_ty op_sca_ty layout x_idxs op_idxs vals_op
              = Inl Unsupported_cast)
       \<and> (contiguous mod 4 = 0 \<and> \<not> (op_sca_ty = FP32_ty \<and> ret_sca_ty = FP8_ty)
            \<and> \<not> (op_sca_ty = FP8_ty \<and> ret_sca_ty = FP16_ty)
            \<and> x_idxs \<noteq> [] \<and> 4 \<le> length op_idxs \<longrightarrow>
            visit_cast_inst ret_sca_ty op_sca_ty layout x_idxs op_idxs vals_op
              = Inl Unsupported_conversion)"
proof -
  have v: "visit_cast_inst ret_sca_ty op_sca_ty layout x_idxs op_idxs vals_op =
     (if contiguous mod 4 \<noteq> 0 then Inl Unsupported_fp32_to_fp8_conversion
      else bind_err (cast_loop op_sca_ty ret_sca_ty vals_op x_idxs op_idxs 0 [])
             (\<lambda>stored. Inr (Some stored)))"
    using fp8 ld sl contiguous by (simp add: visit_cast_inst_def)
  have one: "contiguous mod 4 \<noteq> 0 \<longrightarrow>
            visit_cast_inst ret_sca_ty op_sca_ty layout x_idxs op_idxs vals_op
              = Inl Unsupported_fp32_to_fp8_conversion"
    using v by simp
  have two: "visit_cast_inst ret_sca_ty op_sca_ty layout x_idxs op_idxs vals_op
              = Inl Unsupported_fp32_to_fp8_conversion \<longrightarrow> contiguous mod 4 \<noteq> 0"
  proof (intro impI notI)
    assume e: "visit_cast_inst ret_sca_ty op_sca_ty layout x_idxs op_idxs vals_op
              = Inl Unsupported_fp32_to_fp8_conversion" and m: "contiguous mod 4 = 0"
    then have "bind_err (cast_loop op_sca_ty ret_sca_ty vals_op x_idxs op_idxs 0 [])
             (\<lambda>stored. Inr (Some stored)) = Inl Unsupported_fp32_to_fp8_conversion"
      using v by simp
    then have "cast_loop op_sca_ty ret_sca_ty vals_op x_idxs op_idxs 0 []
                 = Inl Unsupported_fp32_to_fp8_conversion"
      by (auto dest: bind_err_Inl)
    then show False by (auto dest: cast_loop_Inl)
  qed
  have three: "contiguous mod 4 = 0 \<and> op_sca_ty = FP8_ty \<and> ret_sca_ty = FP16_ty
            \<and> length x_idxs = 4 * n \<and> length op_idxs = 4 * n \<longrightarrow>
            visit_cast_inst ret_sca_ty op_sca_ty layout x_idxs op_idxs vals_op
              = Inr (Some (concat (map (fp16_group vals_op x_idxs op_idxs) [0..<n])))"
  proof (intro impI, elim conjE)
    assume m: "contiguous mod 4 = 0" and t: "op_sca_ty = FP8_ty" "ret_sca_ty = FP16_ty"
      and l: "length x_idxs = 4 * n" "length op_idxs = 4 * n"
    have g: "\<forall>g<n. cast_group FP8_ty FP16_ty vals_op x_idxs op_idxs (4 * g)
           = Inr (fp16_group vals_op x_idxs op_idxs g)"
      using cast_group_fp16 [OF l] by blast
    have "cast_loop FP8_ty FP16_ty vals_op x_idxs op_idxs (4 * 0) []
       = Inr ([] @ concat (map (fp16_group vals_op x_idxs op_idxs) [0..<n]))"
      using l(1) g by (rule cast_loop_groups) simp
    then show "visit_cast_inst ret_sca_ty op_sca_ty layout x_idxs op_idxs vals_op
              = Inr (Some (concat (map (fp16_group vals_op x_idxs op_idxs) [0..<n])))"
      using v m t by simp
  qed
  have four: "contiguous mod 4 = 0 \<and> op_sca_ty = FP32_ty \<and> ret_sca_ty = FP8_ty
            \<and> length x_idxs = 4 * n \<and> length op_idxs = 4 * n
            \<and> (\<forall>i<4 * n. constant_zero_float (lookup vals_op (op_idxs ! i))) \<longrightarrow>
            visit_cast_inst ret_sca_ty op_sca_ty layout x_idxs op_idxs vals_op
              = Inr (Some (map (\<lambda>idx. (idx, getInt8 0)) x_idxs))"
  proof (intro impI, elim conjE)
    assume m: "contiguous mod 4 = 0" and t: "op_sca_ty = FP32_ty" "ret_sca_ty = FP8_ty"
      and l: "length x_idxs = 4 * n" "length op_idxs = 4 * n"
      and z: "\<forall>i<4 * n. constant_zero_float (lookup vals_op (op_idxs ! i))"
    let ?E = "\<lambda>g. [(x_idxs ! (4 * g), getInt8 0), (x_idxs ! (4 * g + 1), getInt8 0),
                  (x_idxs ! (4 * g + 2), getInt8 0), (x_idxs ! (4 * g + 3), getInt8 0)]"
    have g: "\<forall>g<n. cast_group FP32_ty FP8_ty vals_op x_idxs op_idxs (4 * g) = Inr (?E g)"
      using cast_group_fp8_zero [OF l _ z] by blast
    have "cast_loop FP32_ty FP8_ty vals_op x_idxs op_idxs (4 * 0) []
       = Inr ([] @ concat (map ?E [0..<n]))"
      using l(1) g by (rule cast_loop_groups) simp
    moreover have "concat (map ?E [0..<n]) = map (\<lambda>idx. (idx, getInt8 0)) x_idxs"
      using l(1) by (rule concat_groups_map)
    ultimately show "visit_cast_inst ret_sca_ty op_sca_ty layout x_idxs op_idxs vals_op
              = Inr (Some (map (\<lambda>idx. (idx, getInt8 0)) x_idxs))"
      using v m t by simp
  qed
  have five: "contiguous mod 4 = 0 \<and> op_sca_ty = FP32_ty \<and> ret_sca_ty = FP8_ty
            \<and> length x_idxs = 4 * n \<and> length op_idxs = 4 * n
            \<and> (\<forall>i<4 * n. lookup vals_op (op_idxs ! i) \<noteq> Nullptr)
            \<and> (\<exists>i<4 * n. \<not> constant_zero_float (lookup vals_op (op_idxs ! i))) \<longrightarrow>
            visit_cast_inst ret_sca_ty op_sca_ty layout x_idxs op_idxs vals_op
              = Inl Unsupported_cast"
  proof (intro impI, elim conjE)
    assume m: "contiguous mod 4 = 0" and t: "op_sca_ty = FP32_ty" "ret_sca_ty = FP8_ty"
      and l: "length x_idxs = 4 * n" "length op_idxs = 4 * n"
      and nn: "\<forall>i<4 * n. lookup vals_op (op_idxs ! i) \<noteq> Nullptr"
      and nz: "\<exists>i<4 * n. \<not> constant_zero_float (lookup vals_op (op_idxs ! i))"
    let ?E = "\<lambda>g. [(x_idxs ! (4 * g), getInt8 0), (x_idxs ! (4 * g + 1), getInt8 0),
                  (x_idxs ! (4 * g + 2), getInt8 0), (x_idxs ! (4 * g + 3), getInt8 0)]"
    let ?z = "\<lambda>g. constant_zero_float (lookup vals_op (op_idxs ! (4 * g)))
        \<and> constant_zero_float (lookup vals_op (op_idxs ! (4 * g + 1)))
        \<and> constant_zero_float (lookup vals_op (op_idxs ! (4 * g + 2)))
        \<and> constant_zero_float (lookup vals_op (op_idxs ! (4 * g + 3)))"
    have err: "cast_group FP32_ty FP8_ty vals_op x_idxs op_idxs (4 * g) = Inl Unsupported_cast"
      if "g < n" "\<not> ?z g" for g
      using l that(1) nn that(2) by (rule cast_group_fp8_error)
    have ok: "cast_group FP32_ty FP8_ty vals_op x_idxs op_idxs (4 * g) = Inr (?E g)"
      if "g < n" "?z g" for g
    proof -
      have lt: "4 * g + 3 < 4 * n" using that(1) by simp
      then have b: "4 * g < length x_idxs" "4 * g + 1 < length x_idxs" "4 * g + 2 < length x_idxs"
        "4 * g + 3 < length x_idxs" "4 * g < length op_idxs" "4 * g + 1 < length op_idxs"
        "4 * g + 2 < length op_idxs" "4 * g + 3 < length op_idxs"
        using l by simp_all
      have "fp32x4_to_fp8x4 (lookup vals_op (op_idxs ! (4 * g)))
          (lookup vals_op (op_idxs ! (4 * g + 1))) (lookup vals_op (op_idxs ! (4 * g + 2)))
          (lookup vals_op (op_idxs ! (4 * g + 3))) = Inr (getInt8 0, getInt8 0, getInt8 0, getInt8 0)"
        using that(2) by (intro fp32x4_to_fp8x4_zero) simp_all
      then show ?thesis
        using b by (simp add: cast_group_def at_Inr cast_cvt_def)
    qed
    have groups: "\<forall>g<n. cast_group FP32_ty FP8_ty vals_op x_idxs op_idxs (4 * g) = Inr (?E g)
                  \<or> cast_group FP32_ty FP8_ty vals_op x_idxs op_idxs (4 * g) = Inl Unsupported_cast"
      using err ok by blast
    from nz obtain i where i: "i < 4 * n" "\<not> constant_zero_float (lookup vals_op (op_idxs ! i))"
      by blast
    have ig: "i div 4 < n" using i(1) by simp
    have "i = 4 * (i div 4) \<or> i = 4 * (i div 4) + 1 \<or> i = 4 * (i div 4) + 2
        \<or> i = 4 * (i div 4) + 3" by presburger
    then have "\<not> ?z (i div 4)" using i(2) by metis
    then have "cast_group FP32_ty FP8_ty vals_op x_idxs op_idxs (4 * (i div 4))
        = Inl Unsupported_cast" using ig err by blast
    then have "\<exists>g. 0 \<le> g \<and> g < n
           \<and> cast_group FP32_ty FP8_ty vals_op x_idxs op_idxs (4 * g) = Inl Unsupported_cast"
      using ig by blast
    then have "cast_loop FP32_ty FP8_ty vals_op x_idxs op_idxs (4 * 0) [] = Inl Unsupported_cast"
      using cast_loop_error [OF l(1) groups] by blast
    then show "visit_cast_inst ret_sca_ty op_sca_ty layout x_idxs op_idxs vals_op
              = Inl Unsupported_cast"
      using v m t by simp
  qed
  have six: "contiguous mod 4 = 0 \<and> \<not> (op_sca_ty = FP32_ty \<and> ret_sca_ty = FP8_ty)
            \<and> \<not> (op_sca_ty = FP8_ty \<and> ret_sca_ty = FP16_ty)
            \<and> x_idxs \<noteq> [] \<and> 4 \<le> length op_idxs \<longrightarrow>
            visit_cast_inst ret_sca_ty op_sca_ty layout x_idxs op_idxs vals_op
              = Inl Unsupported_conversion"
  proof (intro impI, elim conjE)
    assume m: "contiguous mod 4 = 0"
      and t: "\<not> (op_sca_ty = FP32_ty \<and> ret_sca_ty = FP8_ty)"
        "\<not> (op_sca_ty = FP8_ty \<and> ret_sca_ty = FP16_ty)"
      and x: "x_idxs \<noteq> []" "4 \<le> length op_idxs"
    have "cast_loop op_sca_ty ret_sca_ty vals_op x_idxs op_idxs 0 [] = Inl Unsupported_conversion"
      using t x by (rule cast_loop_unsupported_conversion)
    then show "visit_cast_inst ret_sca_ty op_sca_ty layout x_idxs op_idxs vals_op
              = Inl Unsupported_conversion"
      using v m by simp
  qed
  show ?thesis using one two three four five six by blast
qed

theorem visit_cast_inst_fp8_run_length_witness:
  "visit_cast_inst FP16_ty FP8_ty
      (Scanline \<lparr>get_order = [0], get_shape = [128], nts = [4], mts = [32]\<rparr>)
      [[Argument 10], [Argument 11], [Argument 12], [Argument 13]]
      [[Argument 10], [Argument 11], [Argument 12], [Argument 13]]
      (map_of [([Argument 10], Argument 0), ([Argument 11], Argument 1),
               ([Argument 12], Argument 2), ([Argument 13], Argument 3)])
    = Inr (Some (fp16_group
        (map_of [([Argument 10], Argument 0), ([Argument 11], Argument 1),
                 ([Argument 12], Argument 2), ([Argument 13], Argument 3)])
        [[Argument 10], [Argument 11], [Argument 12], [Argument 13]]
        [[Argument 10], [Argument 11], [Argument 12], [Argument 13]] 0))
   \<and> visit_cast_inst FP16_ty FP8_ty
      (Scanline \<lparr>get_order = [0], get_shape = [128], nts = [2], mts = [64]\<rparr>)
      [[Argument 10], [Argument 11]] [[Argument 10], [Argument 11]] Map.empty
    = Inl Unsupported_fp32_to_fp8_conversion
   \<and> visit_cast_inst FP8_ty FP32_ty
      (Scanline \<lparr>get_order = [0], get_shape = [128], nts = [4], mts = [32]\<rparr>)
      [[Argument 10], [Argument 11], [Argument 12], [Argument 13]]
      [[Argument 10], [Argument 11], [Argument 12], [Argument 13]]
      (map_of [([Argument 10], ConstantFP FloatTy 0), ([Argument 11], ConstantFP FloatTy 0),
               ([Argument 12], ConstantFP FloatTy 0), ([Argument 13], ConstantFP FloatTy 0)])
    = Inr (Some [([Argument 10], getInt8 0), ([Argument 11], getInt8 0),
                 ([Argument 12], getInt8 0), ([Argument 13], getInt8 0)])
   \<and> visit_cast_inst FP8_ty FP32_ty
      (Scanline \<lparr>get_order = [0], get_shape = [128], nts = [4], mts = [32]\<rparr>)
      [[Argument 10], [Argument 11], [Argument 12], [Argument 13]]
      [[Argument 10], [Argument 11], [Argument 12], [Argument 13]]
      (map_of [([Argument 10], ConstantFP FloatTy 0), ([Argument 11], ConstantFP FloatTy 0),
               ([Argument 12], Argument 2), ([Argument 13], ConstantFP FloatTy 0)])
    = Inl Unsupported_cast
   \<and> visit_cast_inst FP8_ty FP16_ty
      (Scanline \<lparr>get_order = [0], get_shape = [128], nts = [4], mts = [32]\<rparr>)
      [[Argument 10], [Argument 11], [Argument 12], [Argument 13]]
      [[Argument 10], [Argument 11], [Argument 12], [Argument 13]] Map.empty
    = Inl Unsupported_conversion"
proof -
  let ?idxs = "[[Argument 10], [Argument 11], [Argument 12], [Argument 13]]"
  let ?l4 = "Scanline \<lparr>get_order = [0], get_shape = [128], nts = [4], mts = [32]\<rparr>"
  let ?zeros = "map_of [([Argument 10], ConstantFP FloatTy 0), ([Argument 11], ConstantFP FloatTy 0),
               ([Argument 12], ConstantFP FloatTy 0), ([Argument 13], ConstantFP FloatTy 0)]"
  let ?mixed = "map_of [([Argument 10], ConstantFP FloatTy 0), ([Argument 11], ConstantFP FloatTy 0),
               ([Argument 12], Argument 2), ([Argument 13], ConstantFP FloatTy 0)]"
  have a: "FP16_ty = FP8_ty \<or> FP8_ty = FP8_ty" by simp
  have a': "FP8_ty = FP8_ty \<or> FP32_ty = FP8_ty" by simp
  have a'': "FP8_ty = FP8_ty \<or> FP16_ty = FP8_ty" by simp
  have b: "at (layout_order ?l4) 0 = Inr 0"
    "to_scanline ?l4 = Inr \<lparr>get_order = [0], get_shape = [128], nts = [4], mts = [32]\<rparr>"
    "at (nts \<lparr>get_order = [0], get_shape = [128], nts = [4], mts = [32]\<rparr>) 0 = Inr 4"
    by (simp_all add: at_def)
  have c: "at (layout_order
      (Scanline \<lparr>get_order = [0], get_shape = [128], nts = [2], mts = [64]\<rparr>)) 0 = Inr 0"
    "to_scanline (Scanline \<lparr>get_order = [0], get_shape = [128], nts = [2], mts = [64]\<rparr>)
       = Inr \<lparr>get_order = [0], get_shape = [128], nts = [2], mts = [64]\<rparr>"
    "at (nts \<lparr>get_order = [0], get_shape = [128], nts = [2], mts = [64]\<rparr>) 0 = Inr 2"
    by (simp_all add: at_def)
  have z: "\<forall>i<4 * 1. constant_zero_float (lookup ?zeros (?idxs ! i))"
    by (simp add: all_less_4 lookup_def fp_equals_zero_def)
  have nn: "\<forall>i<4 * 1. lookup ?mixed (?idxs ! i) \<noteq> Nullptr"
    by (simp add: all_less_4 lookup_def)
  have nz: "\<exists>i<4 * 1. \<not> constant_zero_float (lookup ?mixed (?idxs ! i))"
    by (intro exI [of _ 2]) (simp add: lookup_def)
  have one: "visit_cast_inst FP16_ty FP8_ty ?l4 ?idxs ?idxs
      (map_of [([Argument 10], Argument 0), ([Argument 11], Argument 1),
               ([Argument 12], Argument 2), ([Argument 13], Argument 3)])
    = Inr (Some (fp16_group
        (map_of [([Argument 10], Argument 0), ([Argument 11], Argument 1),
                 ([Argument 12], Argument 2), ([Argument 13], Argument 3)]) ?idxs ?idxs 0))"
    using visit_cast_inst_fp8_run_length [OF a b, where x_idxs = ?idxs and n = 1
            and op_idxs = ?idxs]
    by simp
  have two: "visit_cast_inst FP16_ty FP8_ty
      (Scanline \<lparr>get_order = [0], get_shape = [128], nts = [2], mts = [64]\<rparr>)
      [[Argument 10], [Argument 11]] [[Argument 10], [Argument 11]] Map.empty
    = Inl Unsupported_fp32_to_fp8_conversion"
    using visit_cast_inst_fp8_run_length [OF a c] by simp
  have three: "visit_cast_inst FP8_ty FP32_ty ?l4 ?idxs ?idxs ?zeros
    = Inr (Some (map (\<lambda>idx. (idx, getInt8 0)) ?idxs))"
    using visit_cast_inst_fp8_run_length [OF a' b, where x_idxs = ?idxs and n = 1
            and op_idxs = ?idxs and vals_op = ?zeros] z
    by simp
  have four: "visit_cast_inst FP8_ty FP32_ty ?l4 ?idxs ?idxs ?mixed = Inl Unsupported_cast"
    using visit_cast_inst_fp8_run_length [OF a' b, where x_idxs = ?idxs and n = 1
            and op_idxs = ?idxs and vals_op = ?mixed] nn nz
    by simp
  have five: "visit_cast_inst FP8_ty FP16_ty ?l4 ?idxs ?idxs Map.empty = Inl Unsupported_conversion"
    using visit_cast_inst_fp8_run_length [OF a'' b, where x_idxs = ?idxs
            and op_idxs = ?idxs and vals_op = Map.empty]
    by simp
  show ?thesis using one two three four five by simp
qed

text \<open>
  Claim C4 as stated fails: with a run length of 4, a cast from the 32-bit to the 8-bit
  format of four values computed at run time is rejected with the unsupported-cast error,
  and a cast from the 16-bit to the 8-bit format with the unsupported-conversion error.
\<close>

theorem visit_cast_inst_fp8_counterexample:
  "(4 :: nat) mod 4 = 0
   \<and> visit_cast_inst FP8_ty FP32_ty
      (Scanline \<lparr>get_order = [0], get_shape = [128], nts = [4], mts = [32]\<rparr>)
      [[Argument 10], [Argument 11], [Argument 12], [Argument 13]]
      [[Argument 10], [Argument 11], [Argument 12], [Argument 13]]
      (map_of [([Argument 10], Argument 0), ([Argument 11], Argument 1),
               ([Argument 12], Argument 2), ([Argument 13], Argument 3)])
    = Inl Unsupported_cast
   \<and> visit_cast_inst FP8_ty FP16_ty
      (Scanline \<lparr>get_order = [0], get_shape = [128], nts = [4], mts = [32]\<rparr>)
      [[Argument 10], [Argument 11], [Argument 12], [Argument 13]]
      [[Argument 10], [Argument 11], [Argument 12], [Argument 13]]
      (map_of [([Argument 10], Argument 0), ([Argument 11], Argument 1),
               ([Argument 12], Argument 2), ([Argument 13], Argument 3)])
    = Inl Unsupported_conversion"
  by (simp add: visit_cast_inst_def at_def cast_loop.simps cast_group_def lookup_def cast_cvt_def
      fp32x4_to_fp8x4_def)

section \<open>Properties of the load lowering\<close>

lemma bind_err_Inr:
  "bind_err r f = Inr y \<Longrightarrow> \<exists>x. r = Inr x \<and> f x = Inr y"
  by (cases r) simp_all

lemma to_int_small: "n < 2 ^ 31 \<Longrightarrow> to_int n = int n"
proof -
  assume a: "n < 2 ^ 31"
  have "int n < 2 ^ 31" using a by (metis of_nat_less_iff of_nat_numeral of_nat_power)
  then have "signed_take_bit 31 (int n) = int n"
    by (intro signed_take_bit_int_eq_self) simp_all
  then show ?thesis by (simp add: to_int_def)
qed

lemma to_size_t_int: "n < 2 ^ 64 \<Longrightarrow> to_size_t (int n) = n"
proof -
  assume a: "n < 2 ^ 64"
  have "int n < 2 ^ 64" using a by (metis of_nat_less_iff of_nat_numeral of_nat_power)
  then have "int n mod 2 ^ 64 = int n" by simp
  then show ?thesis by (simp add: to_size_t_def)
qed

lemma c_div_nat: "b \<noteq> 0 \<Longrightarrow> c_div (int a) (int b) = Inr (int (a div b))"
  by (simp add: c_div_def zdiv_int sgn_if)

lemma load_widths_small:
  assumes nbits: "1 \<le> nbits" and vec: "1 \<le> vec" and small: "nbits * vec < 2 ^ 31"
  shows "load_widths nbits vec =
     Inr \<lparr>width = int (min (nbits * vec) (max 32 nbits)),
          n_words = int (max 1 ((nbits * vec) div min (nbits * vec) (max 32 nbits)))\<rparr>"
proof -
  have "nbits \<le> nbits * vec" using vec by simp
  then have n31: "nbits < 2 ^ 31" using small by linarith
  have t64: "(nbits * vec) mod 2 ^ 64 = nbits * vec"
    using small by simp
  have m: "max 32 (to_int nbits) = int (max 32 nbits)"
    using to_int_small [OF n31] by simp
  have t: "to_int ((nbits * vec) mod 2 ^ 64) = int (nbits * vec)"
    unfolding t64 using small by (rule to_int_small)
  have w: "min (int (nbits * vec)) (int (max 32 nbits)) = int (min (nbits * vec) (max 32 nbits))"
    by (simp only: of_nat_min)
  have pos: "min (nbits * vec) (max 32 nbits) \<noteq> 0" using nbits vec by simp
  have d: "c_div (int (nbits * vec)) (int (min (nbits * vec) (max 32 nbits)))
             = Inr (int ((nbits * vec) div min (nbits * vec) (max 32 nbits)))"
    using pos by (rule c_div_nat)
  show ?thesis
    unfolding load_widths_def Let_def m t w d by simp
qed

lemma load_widths_zero:
  assumes "nbits * vec = 0"
  shows "load_widths nbits vec = Inl Division_by_zero"
proof -
  have "(nbits * vec) mod 2 ^ 64 = 0" unfolding assms by simp
  then have t: "to_int ((nbits * vec) mod 2 ^ 64) = 0" by (simp only: to_int_def) simp
  have "0 \<le> max 32 (to_int nbits)" by simp
  then have "min 0 (max 32 (to_int nbits)) = 0" by simp
  then show ?thesis unfolding load_widths_def Let_def t by (simp add: c_div_def)
qed


lemma load_group_call:
  assumes "load_group x vec i = Inr g"
  shows "\<exists>w in_off movs args.
      load_widths ((primitive_size_in_bits x div 8) * 8) vec = Inr w
    \<and> ld_call g = Call (Ld_global (nat (n_words w)) (to_size_t (width w)) in_off (cache x) movs) args"
  using assms unfolding load_group_def Let_def call_def
  by (auto dest!: bind_err_Inr split: prod.splits if_splits)

lemma load_loop_groups:
  "load_loop x vec i acc = Inr groups \<Longrightarrow> g \<in> set groups \<Longrightarrow>
     g \<in> set acc \<or> (\<exists>j. load_group x vec j = Inr g)"
proof (induction x vec i acc rule: load_loop.induct)
  case (1 x vec i acc)
  show ?case
  proof (cases "i < length (ld_idxs x)")
    case False
    with "1.prems" show ?thesis by (simp add: load_loop.simps [of x vec i acc])
  next
    case True
    show ?thesis
    proof (cases "load_group x vec i")
      case (Inl e)
      with True "1.prems" show ?thesis by (simp add: load_loop.simps [of x vec i acc])
    next
      case (Inr g')
      show ?thesis
      proof (cases "vec = 0")
        case True
        have "load_loop x vec i acc = Inl Division_by_zero"
          using \<open>i < length (ld_idxs x)\<close> Inr True by (subst load_loop.simps) simp
        with "1.prems"(1) show ?thesis by simp
      next
        case False
        with True Inr "1.prems" have
          "load_loop x vec (i + vec) (acc @ [g']) = Inr groups"
          by (simp add: load_loop.simps [of x vec i acc])
        from "1.IH" [OF True Inr False this "1.prems"(2)]
        show ?thesis using Inr by auto
      qed
    qed
  qed
qed

lemma visit_load_inst_groups:
  assumes "visit_load_inst x = Inr groups" "g \<in> set groups"
  shows "\<exists>vec j. load_vec x = Inr vec \<and> load_group x vec j = Inr g"
proof -
  from assms(1) obtain vec where v: "load_vec x = Inr vec" "load_loop x vec 0 [] = Inr groups"
    unfolding visit_load_inst_def by (auto dest!: bind_err_Inr)
  from load_loop_groups [OF v(2) assms(2)] v(1) show ?thesis by auto
qed

text \<open>
  Claim C6. For every load whose pointer operand is a block, with \<open>run\<close> the run length
  of its layout along the fastest-varying dimension (the per-lane run length of a scanline
  layout, and 1 for any other layout: such a layout has no run length of its own and its
  axes are declared with run length 1), with elements of a whole number of bytes, a
  vector width of at least 1 and fewer than \<open>2 ^ 31\<close> bits per access: the vector width
  is the minimum of the run length and the alignment bound, which is 1 for a layout that
  is not a scanline layout; the word width is \<open>min (max 32 bits) (bits * vec)\<close>; the
  number of words is \<open>max 1 (total / width)\<close>, and every instruction emitted has this
  width and this number of words. No smaller number of words of at most \<open>max 32 bits\<close>
  bits can hold the total, and when the width divides the total the words hold it exactly.
\<close>

theorem load_vector_and_word_widths:
  assumes block: "op_is_block_ty x"
    and run: "case x_layout x of
                Scanline l \<Rightarrow> at (nts l) (ord0 x) = Inr run
              | _ \<Rightarrow> run = 1"
    and bits: "8 dvd primitive_size_in_bits x" "0 < primitive_size_in_bits x"
    and vec: "1 \<le> min run (alignment x)"
    and small: "primitive_size_in_bits x * min run (alignment x) < 2 ^ 31"
  shows "load_vec x = Inr (min run (alignment x))
    \<and> load_widths (primitive_size_in_bits x) (min run (alignment x)) =
        Inr \<lparr>width = int (min (max 32 (primitive_size_in_bits x))
                              (primitive_size_in_bits x * min run (alignment x))),
             n_words = int (max 1 ((primitive_size_in_bits x * min run (alignment x))
                 div (min (max 32 (primitive_size_in_bits x))
                              (primitive_size_in_bits x * min run (alignment x)))))\<rparr>
    \<and> (\<forall>groups g. visit_load_inst x = Inr groups \<and> g \<in> set groups \<longrightarrow>
          (\<exists>in_off movs args. ld_call g =
             Call (Ld_global
                    (max 1 ((primitive_size_in_bits x * min run (alignment x))
                       div (min (max 32 (primitive_size_in_bits x))
                              (primitive_size_in_bits x * min run (alignment x)))))
                    (min (max 32 (primitive_size_in_bits x))
                              (primitive_size_in_bits x * min run (alignment x)))
                    in_off (cache x) movs) args))
    \<and> (\<forall>m. primitive_size_in_bits x * min run (alignment x)
               \<le> m * max 32 (primitive_size_in_bits x) \<longrightarrow>
          max 1 ((primitive_size_in_bits x * min run (alignment x))
                 div (min (max 32 (primitive_size_in_bits x))
                              (primitive_size_in_bits x * min run (alignment x)))) \<le> m)
    \<and> (min (max 32 (primitive_size_in_bits x))
                              (primitive_size_in_bits x * min run (alignment x))
           dvd primitive_size_in_bits x * min run (alignment x) \<longrightarrow>
         max 1 ((primitive_size_in_bits x * min run (alignment x))
                 div (min (max 32 (primitive_size_in_bits x))
                              (primitive_size_in_bits x * min run (alignment x))))
           * min (max 32 (primitive_size_in_bits x))
                              (primitive_size_in_bits x * min run (alignment x))
         = primitive_size_in_bits x * min run (alignment x))
    \<and> ((\<forall>l. x_layout x \<noteq> Scanline l) \<longrightarrow> load_vec x = Inr 1)"
proof -
  define nbits where "nbits = primitive_size_in_bits x"
  define v where "v = min run (alignment x)"
  define tot where "tot = nbits * v"
  define w where "w = min (max 32 nbits) tot"
  define n where "n = max 1 (tot div w)"
  have nb: "1 \<le> nbits" using bits(2) by (simp add: nbits_def)
  have v1: "1 \<le> v" using vec by (simp add: v_def)
  have sm: "nbits * v < 2 ^ 31" using small by (simp add: nbits_def v_def)
  have tot_pos: "0 < tot" using nb v1 by (simp add: tot_def)
  have w_pos: "0 < w" using tot_pos by (simp add: w_def)
  have lv: "load_vec x = Inr v"
  proof (cases "x_layout x")
    case (Scanline l)
    then show ?thesis using block run by (simp add: load_vec_def v_def)
  next
    case (Mma ord)
    then have "run = 1" using run by simp
    then have "v = 1" using v1 by (simp add: v_def)
    then show ?thesis using block Mma by (simp add: load_vec_def)
  next
    case (Shared ord)
    then have "run = 1" using run by simp
    then have "v = 1" using v1 by (simp add: v_def)
    then show ?thesis using block Shared by (simp add: load_vec_def)
  qed
  have lw: "load_widths nbits v = Inr \<lparr>width = int w, n_words = int n\<rparr>"
    using load_widths_small [OF nb v1 sm] by (simp add: w_def n_def tot_def min.commute)
  have nbits8: "(nbits div 8) * 8 = nbits" using bits(1) by (simp add: nbits_def)
  have w64: "w < 2 ^ 64"
  proof -
    have "w \<le> tot" by (simp add: w_def)
    also have "tot < 2 ^ 31" using sm by (simp add: tot_def)
    also have "(2::nat) ^ 31 < 2 ^ 64" by simp
    finally show ?thesis .
  qed
  have groups: "\<forall>groups g. visit_load_inst x = Inr groups \<and> g \<in> set groups \<longrightarrow>
          (\<exists>in_off movs args. ld_call g = Call (Ld_global n w in_off (cache x) movs) args)"
  proof (intro allI impI, elim conjE)
    fix groups g
    assume a: "visit_load_inst x = Inr groups" "g \<in> set groups"
    from visit_load_inst_groups [OF a] lv obtain j where j: "load_group x v j = Inr g" by auto
    from load_group_call [OF j] obtain w' in_off movs args where
      w': "load_widths ((primitive_size_in_bits x div 8) * 8) v = Inr w'"
      and c: "ld_call g = Call (Ld_global (nat (n_words w')) (to_size_t (width w')) in_off
                 (cache x) movs) args"
      by blast
    have "w' = \<lparr>width = int w, n_words = int n\<rparr>"
      using w' lw nbits8 by (simp add: nbits_def)
    then have "nat (n_words w') = n" "to_size_t (width w') = w"
      using to_size_t_int [OF w64] by simp_all
    then show "\<exists>in_off movs args. ld_call g = Call (Ld_global n w in_off (cache x) movs) args"
      using c by auto
  qed
  have minimal: "\<forall>m. tot \<le> m * max 32 nbits \<longrightarrow> n \<le> m"
  proof (intro allI impI)
    fix m assume m: "tot \<le> m * max 32 nbits"
    have m1: "1 \<le> m" using m tot_pos by (cases m) simp_all
    have "tot div w \<le> m"
    proof (cases "tot \<le> max 32 nbits")
      case True
      then have "w = tot" by (simp add: w_def)
      then show ?thesis using tot_pos m1 by simp
    next
      case False
      then have ww: "w = max 32 nbits" by (simp add: w_def)
      have "tot div w \<le> (m * w) div w" using m unfolding ww by (rule div_le_mono)
      then show ?thesis using w_pos by simp
    qed
    then show "n \<le> m" using m1 by (simp add: n_def)
  qed
  have exact: "w dvd tot \<longrightarrow> n * w = tot"
  proof
    assume d: "w dvd tot"
    have "w \<le> tot" by (simp add: w_def)
    then have "1 \<le> tot div w" using w_pos by (simp add: div_greater_zero_iff Suc_leI)
    then have "n = tot div w" by (simp add: n_def)
    then show "n * w = tot" using d by simp
  qed
  have other: "(\<forall>l. x_layout x \<noteq> Scanline l) \<longrightarrow> load_vec x = Inr 1"
    using block by (cases "x_layout x") (simp_all add: load_vec_def)
  show ?thesis
    using lv lw groups minimal exact other
    unfolding n_def w_def tot_def v_def nbits_def by blast
qed

lemma upt_2_Suc: "[0..<2] = [0, Suc 0]" by (simp add: upt_rec)

lemma load_widths_32_2: "load_widths 32 2 = Inr \<lparr>width = 32, n_words = 2\<rparr>"
  using load_widths_small [of 32 2] by simp

lemma mixed_fallback_word_0:
  "fallback_word [[Argument 10] \<mapsto> ConstantFP FloatTy 0, [Argument 11] \<mapsto> Argument 41]
     [[Argument 10], [Argument 11]] 0 2 32 (Suc 0) 0 = Inr ((0, Immediate 0), [])"
  by (simp add: fallback_word_def at_def lookup_def UndefValue_vec_def insert_elt_def bit_cast_def)

lemma mixed_fallback_word_1:
  "fallback_word [[Argument 10] \<mapsto> ConstantFP FloatTy 0, [Argument 11] \<mapsto> Argument 41]
     [[Argument 10], [Argument 11]] 0 2 32 (Suc 0) (Suc 0) = Inr ((Suc 0, Operand 5),
        [BitCast (InsertElement (ConstantVector [UndefValue]) (Argument 41) 0) (IntegerTy 32)])"
  by (simp add: fallback_word_def at_def lookup_def UndefValue_vec_def insert_elt_def bit_cast_def)

lemma mixed_fallback_group:
  "load_group mixed_fallback_load 2 0 = Inr
   \<lparr>ld_call = mixed_fallback_call,
    ld_stores =
      [([Argument 10],
          ExtractElement (BitCast (ExtractValue mixed_fallback_call 0) (VectorTy FloatTy 1)) 0),
       ([Argument 11],
          ExtractElement (BitCast (ExtractValue mixed_fallback_call 1) (VectorTy FloatTy 1)) 0)]\<rparr>"
  by (simp add: load_group_def mixed_fallback_load_def mixed_fallback_call_def at_def lookup_def
      load_widths_32_2 to_size_t_def upt_2_Suc mixed_fallback_word_0 mixed_fallback_word_1
      call_def bit_cast_def extract_val_def extract_elt_def Let_def)

lemma mixed_fallback_vec: "load_vec mixed_fallback_load = Inr 2"
  by (simp add: load_vec_def mixed_fallback_load_def at_def)

lemma mixed_fallback_visit:
  "visit_load_inst mixed_fallback_load = Inr
   [\<lparr>ld_call = mixed_fallback_call,
     ld_stores =
      [([Argument 10],
          ExtractElement (BitCast (ExtractValue mixed_fallback_call 0) (VectorTy FloatTy 1)) 0),
       ([Argument 11],
          ExtractElement (BitCast (ExtractValue mixed_fallback_call 1) (VectorTy FloatTy 1)) 0)]\<rparr>]"
proof -
  have l: "length (ld_idxs mixed_fallback_load) = 2" by (simp add: mixed_fallback_load_def)
  have stop: "load_loop mixed_fallback_load 2 (0 + 2) groups = Inr groups" for groups
    by (subst load_loop.simps) (simp add: l)
  have "load_loop mixed_fallback_load 2 0 [] = Inr
   [\<lparr>ld_call = mixed_fallback_call,
     ld_stores =
      [([Argument 10],
          ExtractElement (BitCast (ExtractValue mixed_fallback_call 0) (VectorTy FloatTy 1)) 0),
       ([Argument 11],
          ExtractElement (BitCast (ExtractValue mixed_fallback_call 1) (VectorTy FloatTy 1)) 0)]\<rparr>]"
    by (subst load_loop.simps) (simp only: l mixed_fallback_group stop, simp)
  then show ?thesis
    unfolding visit_load_inst_def mixed_fallback_vec by simp
qed

text \<open>
  Claim C7 at the load \<open>mixed_fallback_load\<close>. The first word's fallback, the constant
  0.0, is folded into an immediate; the second word's fallback is appended as the only
  extra operand, which makes it placeholder \<open>$4\<close> (results \<open>$0\<close>, \<open>$1\<close>; predicate \<open>$2\<close>;
  pointer \<open>$3\<close>), but its predicated move reads \<open>$5\<close>, a placeholder that does not exist.
\<close>

theorem load_mixed_fallback_operand_mismatch:
  "visit_load_inst mixed_fallback_load = Inr
     [\<lparr>ld_call = mixed_fallback_call,
       ld_stores =
        [([Argument 10],
            ExtractElement (BitCast (ExtractValue mixed_fallback_call 0) (VectorTy FloatTy 1)) 0),
         ([Argument 11],
            ExtractElement (BitCast (ExtractValue mixed_fallback_call 1) (VectorTy FloatTy 1)) 0)]\<rparr>]
   \<and> mixed_fallback_call =
       Call (Ld_global 2 32 12 NONE [(0, Immediate 0), (1, Operand 5)])
         [Argument 30, Argument 20,
          BitCast (InsertElement (ConstantVector [UndefValue]) (Argument 41) 0) (IntegerTy 32)]
   \<and> \<not> movs_in_range mixed_fallback_call"
  by (simp add: mixed_fallback_visit) (simp add: mixed_fallback_call_def)

lemma mma_load_group:
  "load_group mma_load (Suc 0) i =
     (if i < 2 then
        Inr \<lparr>ld_call = Call (Ld_global 1 16 0 CA []) [getTrue, Argument (20 + i)],
             ld_stores = [([Argument 10, Argument (12 + i)],
                ExtractElement (BitCast (Call (Ld_global 1 16 0 CA []) [getTrue, Argument (20 + i)])
                                  (VectorTy HalfTy 1)) 0)]\<rparr>
      else Inl Out_of_range)"
proof -
  have w: "load_widths 16 (Suc 0) = Inr \<lparr>width = 16, n_words = 1\<rparr>"
    using load_widths_small [of 16 "Suc 0"] by simp
  have "i = 0 \<or> i = Suc 0 \<or> 2 \<le> i" by arith
  then show ?thesis
    by (elim disjE)
      (simp_all add: load_group_def mma_load_def at_def lookup_def w to_size_t_def
        call_def bit_cast_def extract_val_def extract_elt_def Let_def)
qed

lemma mma_load_visit:
  "visit_load_inst mma_load = Inr
     [\<lparr>ld_call = Call (Ld_global 1 16 0 CA []) [getTrue, Argument 20],
       ld_stores = [([Argument 10, Argument 12],
          ExtractElement (BitCast (Call (Ld_global 1 16 0 CA []) [getTrue, Argument 20])
                            (VectorTy HalfTy 1)) 0)]\<rparr>,
      \<lparr>ld_call = Call (Ld_global 1 16 0 CA []) [getTrue, Argument 21],
       ld_stores = [([Argument 10, Argument 13],
          ExtractElement (BitCast (Call (Ld_global 1 16 0 CA []) [getTrue, Argument 21])
                            (VectorTy HalfTy 1)) 0)]\<rparr>]"
proof -
  have l: "length (ld_idxs mma_load) = 2" by (simp add: mma_load_def)
  have v: "load_vec mma_load = Inr 1" by (simp add: load_vec_def mma_load_def)
  have stop: "load_loop mma_load 1 (Suc (Suc 0)) groups = Inr groups" for groups
    by (subst load_loop.simps) (simp add: l)
  have s1: "load_loop mma_load 1 1 groups = load_loop mma_load 1 (Suc (Suc 0))
      (groups @ [\<lparr>ld_call = Call (Ld_global 1 16 0 CA []) [getTrue, Argument 21],
       ld_stores = [([Argument 10, Argument 13],
          ExtractElement (BitCast (Call (Ld_global 1 16 0 CA []) [getTrue, Argument 21])
                            (VectorTy HalfTy 1)) 0)]\<rparr>])" for groups
    by (subst load_loop.simps) (simp add: l mma_load_group)
  have s0: "load_loop mma_load 1 0 groups = load_loop mma_load 1 1
      (groups @ [\<lparr>ld_call = Call (Ld_global 1 16 0 CA []) [getTrue, Argument 20],
       ld_stores = [([Argument 10, Argument 12],
          ExtractElement (BitCast (Call (Ld_global 1 16 0 CA []) [getTrue, Argument 20])
                            (VectorTy HalfTy 1)) 0)]\<rparr>])" for groups
    by (subst load_loop.simps) (simp add: l mma_load_group)
  show ?thesis
    unfolding visit_load_inst_def v bind_err_simps s0 s1 stop by simp
qed

theorem load_vector_and_word_widths_witness:
  "load_vec mixed_fallback_load = Inr 2
   \<and> load_widths 32 2 = Inr \<lparr>width = 32, n_words = 2\<rparr>
   \<and> (\<exists>g in_off movs args. visit_load_inst mixed_fallback_load = Inr [g]
         \<and> ld_call g = Call (Ld_global 2 32 in_off NONE movs) args)
   \<and> load_vec mma_load = Inr 1
   \<and> load_widths 16 1 = Inr \<lparr>width = 16, n_words = 1\<rparr>
   \<and> (\<exists>g g' in_off movs args. visit_load_inst mma_load = Inr [g, g']
         \<and> ld_call g' = Call (Ld_global 1 16 in_off CA movs) args)"
proof -
  let ?x = mixed_fallback_load
  let ?l = "\<lparr>get_order = [0], get_shape = [128], nts = [2], mts = [64 :: nat]\<rparr>"
  have h: "op_is_block_ty ?x"
    "case x_layout ?x of Scanline l \<Rightarrow> at (nts l) (ord0 ?x) = Inr 2 | _ \<Rightarrow> (2::nat) = 1"
    "8 dvd primitive_size_in_bits ?x" "0 < primitive_size_in_bits ?x"
    "1 \<le> min 2 (alignment ?x)" "primitive_size_in_bits ?x * min 2 (alignment ?x) < 2 ^ 31"
    by (simp_all add: mixed_fallback_load_def at_def)
  have v: "primitive_size_in_bits ?x = 32" "alignment ?x = 4" "cache ?x = NONE"
    by (simp_all add: mixed_fallback_load_def)
  note t = load_vector_and_word_widths [OF h]
  have a: "load_vec ?x = Inr 2" using t by (simp add: v)
  have b: "load_widths 32 2 = Inr \<lparr>width = 32, n_words = 2\<rparr>" using t by (simp add: v)
  obtain g where g: "visit_load_inst ?x = Inr [g]" using mixed_fallback_visit by blast
  then have "\<exists>in_off movs args. ld_call g = Call (Ld_global 2 32 in_off NONE movs) args"
    using t by (simp add: v numeral_2_eq_2)
  then have c: "\<exists>g in_off movs args. visit_load_inst ?x = Inr [g]
         \<and> ld_call g = Call (Ld_global 2 32 in_off NONE movs) args"
    using g by blast
  let ?y = mma_load
  have h': "op_is_block_ty ?y"
    "case x_layout ?y of Scanline l \<Rightarrow> at (nts l) (ord0 ?y) = Inr 1 | _ \<Rightarrow> (1::nat) = 1"
    "8 dvd primitive_size_in_bits ?y" "0 < primitive_size_in_bits ?y"
    "1 \<le> min 1 (alignment ?y)" "primitive_size_in_bits ?y * min 1 (alignment ?y) < 2 ^ 31"
    by (simp_all add: mma_load_def)
  have v': "primitive_size_in_bits ?y = 16" "alignment ?y = 4" "cache ?y = CA"
    by (simp_all add: mma_load_def)
  note t' = load_vector_and_word_widths [OF h']
  have a': "load_vec ?y = Inr 1" using t' by (simp add: v')
  have b': "load_widths 16 1 = Inr \<lparr>width = 16, n_words = 1\<rparr>" using t' by (simp add: v')
  obtain g1 g2 where g': "visit_load_inst ?y = Inr [g1, g2]" using mma_load_visit by blast
  then have "\<exists>in_off movs args. ld_call g2 = Call (Ld_global 1 16 in_off CA movs) args"
    using t' by (simp add: v')
  then have c': "\<exists>g g' in_off movs args. visit_load_inst ?y = Inr [g, g']
         \<and> ld_call g' = Call (Ld_global 1 16 in_off CA movs) args"
    using g' by blast
  show ?thesis using a b c a' b' c' by blast
qed

section \<open>Properties of the index materializer\<close>































lemma indices_1_coords:
  assumes "ord = [0]" "ax_values (axes ! 0) = c 0"
  shows "indices_1 axes ord = map (\<lambda>x0. [x0]) (c 0)"
  using assms by (simp add: indices_1_def)



lemma set_map_single:
  "set (map (\<lambda>x0. [x0]) xs) = {idx. length idx = 1 \<and> (\<forall>d<1. idx ! d \<in> set xs)}"
  by (auto simp: length_Suc_conv)








section \<open>Properties of the reduction lowering\<close>

lemma neutral_int32:
  "neutral R_MAX (IntegerTy 32) = Inr (ConstantInt 32 (int_min 32))"
  "neutral R_MIN (IntegerTy 32) = Inr (ConstantInt 32 (int_max 32))"
  by (simp_all add: INT32_MIN_def INT32_MAX_def to_uint64_def int_min_def int_max_def
      signed_take_bit_eq_take_bit_minus take_bit_eq_mod bit_iff_odd)

lemma neutral_zero:
  "neutral R_ADD (IntegerTy w) = Inr (ConstantInt w 0)"
  "neutral R_SUB (IntegerTy w) = Inr (ConstantInt w 0)"
  by (simp_all add: to_uint64_def)

lemma neutral_fp:
  assumes "ty \<in> {HalfTy, FloatTy, DoubleTy}"
  shows "neutral R_FADD ty = Inr (ConstantFP ty (fp_bits ty Zero))"
    "neutral R_FSUB ty = Inr (ConstantFP ty (fp_bits ty Zero))"
    "neutral R_FMAX ty = Inr (ConstantFP ty (fp_bits ty Neg_Infinity))"
    "neutral R_FMIN ty = Inr (ConstantFP ty (fp_bits ty Infinity))"
  using assms by auto

lemma fp_bits_float:
  "fp_bits ty Zero = 0" "fp_bits FloatTy Neg_Infinity = 0xFF800000"
  "fp_bits FloatTy Infinity = 0x7F800000"
  by (simp_all add: fp_bits_def)

lemma do_acc_accumulators:
  assumes "(op, f) \<in> set [(R_ADD, BinaryOperator Add), (R_SUB, BinaryOperator Sub),
      (R_MAX, \<lambda>x y. Select (ICmp ICMP_SGE x y) x y),
      (R_MIN, \<lambda>x y. Select (ICmp ICMP_SLE x y) x y),
      (R_FADD, BinaryOperator FAdd), (R_FSUB, BinaryOperator FSub),
      (R_FMAX, \<lambda>x y. Intrinsic Maxnum [x, y]),
      (R_FMIN, \<lambda>x y. Intrinsic Minnum [x, y])]"
  shows "x \<noteq> Nullptr \<Longrightarrow> y \<noteq> Nullptr \<Longrightarrow> do_acc op x y = Inr (f x y)"
    and "f x y \<noteq> Nullptr" and "op \<noteq> Other_op"
  using assms by (auto simp: do_acc_def)

lemma reduce_within_thread_foldl:
  assumes f: "\<And>x y. x \<noteq> Nullptr \<Longrightarrow> y \<noteq> Nullptr \<Longrightarrow> acc_fn x y = Inr (f x y)"
    and nn: "\<And>x y. f x y \<noteq> Nullptr"
  shows "a \<noteq> Nullptr \<Longrightarrow> Nullptr \<notin> set vs \<Longrightarrow>
     reduce_within_thread acc_fn a vs = Inr (foldl f a vs)"
proof (induction vs arbitrary: a)
  case Nil
  then show ?case by simp
next
  case (Cons v vs)
  then have "acc_fn a v = Inr (f a v)" using f [of a v] by auto
  moreover have "reduce_within_thread acc_fn (f a v) vs = Inr (foldl f (f a v) vs)"
    using Cons.IH [of "f a v"] Cons.prems nn by simp
  ultimately show ?case using Cons.prems by simp
qed

lemma foldl_nonnull:
  assumes nn: "\<And>x y. f x y \<noteq> Nullptr"
  shows "a \<noteq> Nullptr \<Longrightarrow> foldl f a vs \<noteq> Nullptr"
  by (induction vs arbitrary: a) (simp_all add: nn)

lemma reduce_within_thread_skip_null:
  "reduce_within_thread acc_fn Nullptr (Nullptr # vs) = reduce_within_thread acc_fn Nullptr vs"
  by simp

lemma visit_reduce1d_inst_fold:
  assumes f: "\<And>x y. x \<noteq> Nullptr \<Longrightarrow> y \<noteq> Nullptr \<Longrightarrow> acc_fn x y = Inr (f x y)"
    and nn: "\<And>x y. f x y \<noteq> Nullptr"
    and vs: "map (lookup vals) idxs = v # vs" "Nullptr \<notin> set (v # vs)"
  shows "visit_reduce1d_inst acc_fn nv vals idxs
     = Inr \<lparr>thread_acc = foldl f v vs, shared_fill = nv\<rparr>"
proof -
  have v: "v \<noteq> Nullptr" "Nullptr \<notin> set vs" using vs(2) by auto
  have "reduce_within_thread acc_fn Nullptr (v # vs) = reduce_within_thread acc_fn v vs"
    by simp
  also have "\<dots> = Inr (foldl f v vs)"
    using f nn v by (rule reduce_within_thread_foldl)
  finally have r: "reduce_within_thread acc_fn Nullptr (map (lookup vals) idxs)
      = Inr (foldl f v vs)" using vs(1) by simp
  have "foldl f v vs \<noteq> Nullptr" using nn v(1) by (rule foldl_nonnull)
  then show ?thesis by (simp add: visit_reduce1d_inst_def r)
qed

lemma reducend_within_thread_fold:
  assumes f: "\<And>x y. x \<noteq> Nullptr \<Longrightarrow> y \<noteq> Nullptr \<Longrightarrow> acc_fn x y = Inr (f x y)"
    and nn: "\<And>x y. f x y \<noteq> Nullptr"
  shows "\<forall>idx\<in>set idxs. axis < length idx \<and> lookup vals idx \<noteq> Nullptr \<Longrightarrow>
     \<forall>p a. accs0 p = Some a \<longrightarrow> a \<noteq> Nullptr \<Longrightarrow>
     \<exists>accs. reducend_within_thread acc_fn axis vals idxs accs0 = Inr accs
       \<and> (\<forall>p. accs p =
            (case accs0 p of
               None \<Rightarrow> fold_first f
                 (map (lookup vals) (filter (\<lambda>idx. idx[axis := ConstantInt 32 0] = p) idxs))
             | Some a \<Rightarrow> Some (foldl f a
                 (map (lookup vals) (filter (\<lambda>idx. idx[axis := ConstantInt 32 0] = p) idxs)))))"
proof (induction idxs arbitrary: accs0)
  case Nil
  then show ?case by (simp add: fold_first_def split: option.splits)
next
  case (Cons idx idxs)
  let ?p0 = "idx[axis := ConstantInt 32 0]"
  let ?cur = "lookup vals idx"
  let ?L = "\<lambda>p. map (lookup vals) (filter (\<lambda>idx. idx[axis := ConstantInt 32 0] = p) idxs)"
  have ax: "axis < length idx" and cur: "?cur \<noteq> Nullptr" using Cons.prems(1) by simp_all
  have rest: "\<forall>idx\<in>set idxs. axis < length idx \<and> lookup vals idx \<noteq> Nullptr"
    using Cons.prems(1) by simp
  define v1 where "v1 = (case accs0 ?p0 of None \<Rightarrow> ?cur | Some a \<Rightarrow> f a ?cur)"
  have v1: "v1 \<noteq> Nullptr" using cur nn by (simp add: v1_def split: option.splits)
  have step: "reducend_within_thread acc_fn axis vals (idx # idxs) accs0
      = reducend_within_thread acc_fn axis vals idxs (accs0(?p0 \<mapsto> v1))"
  proof (cases "accs0 ?p0")
    case None
    then show ?thesis using ax by (simp add: v1_def Let_def)
  next
    case (Some a)
    then have "a \<noteq> Nullptr" using Cons.prems(2) by blast
    then have "acc_fn a ?cur = Inr (f a ?cur)" using f cur by simp
    then show ?thesis using ax Some by (simp add: v1_def Let_def)
  qed
  have nn1: "\<forall>p a. (accs0(?p0 \<mapsto> v1)) p = Some a \<longrightarrow> a \<noteq> Nullptr"
    using Cons.prems(2) v1 by auto
  from Cons.IH [OF rest nn1] obtain accs where
    r: "reducend_within_thread acc_fn axis vals idxs (accs0(?p0 \<mapsto> v1)) = Inr accs"
    and a: "\<And>p. accs p =
            (case (accs0(?p0 \<mapsto> v1)) p of
               None \<Rightarrow> fold_first f (?L p)
             | Some a \<Rightarrow> Some (foldl f a (?L p)))"
    by blast
  have "accs p =
            (case accs0 p of
               None \<Rightarrow> fold_first f
                 (map (lookup vals) (filter (\<lambda>idx. idx[axis := ConstantInt 32 0] = p) (idx # idxs)))
             | Some a \<Rightarrow> Some (foldl f a
                 (map (lookup vals) (filter (\<lambda>idx. idx[axis := ConstantInt 32 0] = p) (idx # idxs)))))"
    for p
  proof (cases "p = ?p0")
    case True
    then show ?thesis using a [of p] by (simp add: v1_def fold_first_def split: option.splits)
  next
    case False
    then have "?p0 \<noteq> p" by blast
    then show ?thesis using a [of p] False by (simp split: option.splits)
  qed
  then show ?case using step r by simp
qed

lemma visit_reducend_inst_fold:
  assumes f: "\<And>x y. x \<noteq> Nullptr \<Longrightarrow> y \<noteq> Nullptr \<Longrightarrow> acc_fn x y = Inr (f x y)"
    and nn: "\<And>x y. f x y \<noteq> Nullptr"
    and ok: "\<forall>idx\<in>set idxs. axis < length idx \<and> lookup vals idx \<noteq> Nullptr"
  shows "\<exists>accs. visit_reducend_inst acc_fn nv axis vals idxs = Inr accs
       \<and> (\<forall>p. accs p = fold_first f
            (map (lookup vals) (filter (\<lambda>idx. idx[axis := ConstantInt 32 0] = p) idxs)))"
  using reducend_within_thread_fold [of acc_fn f idxs axis vals Map.empty, OF f nn ok]
  by (simp add: visit_reducend_inst_def)

lemma reduce_within_thread_leading_null:
  "reduce_within_thread acc_fn Nullptr (replicate k Nullptr @ vs)
     = reduce_within_thread acc_fn Nullptr vs"
  by (induction k) simp_all

lemma visit_reduce1d_inst_leading_null:
  assumes f: "\<And>x y. x \<noteq> Nullptr \<Longrightarrow> y \<noteq> Nullptr \<Longrightarrow> acc_fn x y = Inr (f x y)"
    and nn: "\<And>x y. f x y \<noteq> Nullptr"
    and vs: "map (lookup vals) idxs = replicate k Nullptr @ v # vs" "Nullptr \<notin> set (v # vs)"
  shows "visit_reduce1d_inst acc_fn nv vals idxs
     = Inr \<lparr>thread_acc = foldl f v vs, shared_fill = nv\<rparr>"
proof -
  have v: "v \<noteq> Nullptr" "Nullptr \<notin> set vs" using vs(2) by auto
  have "reduce_within_thread acc_fn Nullptr (replicate k Nullptr @ v # vs)
      = reduce_within_thread acc_fn Nullptr (v # vs)"
    by (rule reduce_within_thread_leading_null)
  also have "\<dots> = reduce_within_thread acc_fn v vs" by simp
  also have "\<dots> = Inr (foldl f v vs)"
    using f nn v by (rule reduce_within_thread_foldl)
  finally have r: "reduce_within_thread acc_fn Nullptr (map (lookup vals) idxs)
      = Inr (foldl f v vs)" using vs(1) by simp
  have "foldl f v vs \<noteq> Nullptr" using nn v(1) by (rule foldl_nonnull)
  then show ?thesis by (simp add: visit_reduce1d_inst_def r)
qed

text \<open>
  Claim C9, as amended. The neutral element is the integer 0 for integer add and sub and
  the floating-point +0.0 for floating add and sub; for elements of 32 bits it is the
  least representable integer for MAX and the greatest for MIN; it is minus infinity for
  FMAX and plus infinity for FMIN. For each of the eight operators, with the instruction
  \<open>f\<close> it accumulates with: in a reduction of a rank-1 operand the lane's private fold skips
  leading null values, takes the first materialized element as the accumulator and
  combines the following elements into it with \<open>f\<close>, from left to right in
  materialization order, and the neutral element is the value stored to the
  shared-memory slots, not a part of the fold; in a reduction of an operand of any other
  rank there is one such fold per output position, over the elements that differ only in
  the reduced coordinate, and the neutral element is not used.
\<close>

theorem reduce_neutral_and_private_fold:
  "neutral R_ADD (IntegerTy w) = Inr (ConstantInt w 0)
   \<and> neutral R_SUB (IntegerTy w) = Inr (ConstantInt w 0)
   \<and> neutral R_MAX (IntegerTy 32) = Inr (ConstantInt 32 (int_min 32))
   \<and> neutral R_MIN (IntegerTy 32) = Inr (ConstantInt 32 (int_max 32))
   \<and> (ty \<in> {HalfTy, FloatTy, DoubleTy} \<longrightarrow>
        neutral R_FADD ty = Inr (ConstantFP ty 0)
        \<and> neutral R_FSUB ty = Inr (ConstantFP ty 0)
        \<and> neutral R_FMAX ty = Inr (ConstantFP ty (fp_bits ty Neg_Infinity))
        \<and> neutral R_FMIN ty = Inr (ConstantFP ty (fp_bits ty Infinity)))
   \<and> fp_bits FloatTy Neg_Infinity = 0xFF800000 \<and> fp_bits FloatTy Infinity = 0x7F800000
   \<and> (\<forall>(op, f) \<in> set [(R_ADD, BinaryOperator Add), (R_SUB, BinaryOperator Sub),
                        (R_MAX, \<lambda>x y. Select (ICmp ICMP_SGE x y) x y),
                        (R_MIN, \<lambda>x y. Select (ICmp ICMP_SLE x y) x y),
                        (R_FADD, BinaryOperator FAdd), (R_FSUB, BinaryOperator FSub),
                        (R_FMAX, \<lambda>x y. Intrinsic Maxnum [x, y]),
                        (R_FMIN, \<lambda>x y. Intrinsic Minnum [x, y])].
        \<forall>elt_ty nv. neutral op elt_ty = Inr nv \<longrightarrow>
          (\<forall>k v vs. map (lookup vals) idxs = replicate k Nullptr @ v # vs
                \<and> Nullptr \<notin> set (v # vs) \<longrightarrow>
             visit_reduce_inst op elt_ty 1 axis vals idxs
               = Inr (Reduce_1d \<lparr>thread_acc = foldl f v vs, shared_fill = nv\<rparr>))
        \<and> (rank \<noteq> 1 \<and> (\<forall>idx\<in>set idxs. axis < length idx \<and> lookup vals idx \<noteq> Nullptr) \<longrightarrow>
             (\<exists>accs. visit_reduce_inst op elt_ty rank axis vals idxs = Inr (Reduce_nd accs)
                \<and> (\<forall>p. accs p = fold_first f (map (lookup vals)
                      (filter (\<lambda>idx. idx[axis := ConstantInt 32 0] = p) idxs))))))"
proof -
  have fold: "\<forall>elt_ty nv. neutral op elt_ty = Inr nv \<longrightarrow>
          (\<forall>k v vs. map (lookup vals) idxs = replicate k Nullptr @ v # vs
                \<and> Nullptr \<notin> set (v # vs) \<longrightarrow>
             visit_reduce_inst op elt_ty 1 axis vals idxs
               = Inr (Reduce_1d \<lparr>thread_acc = foldl f v vs, shared_fill = nv\<rparr>))
        \<and> (rank \<noteq> 1 \<and> (\<forall>idx\<in>set idxs. axis < length idx \<and> lookup vals idx \<noteq> Nullptr) \<longrightarrow>
             (\<exists>accs. visit_reduce_inst op elt_ty rank axis vals idxs = Inr (Reduce_nd accs)
                \<and> (\<forall>p. accs p = fold_first f (map (lookup vals)
                      (filter (\<lambda>idx. idx[axis := ConstantInt 32 0] = p) idxs)))))"
    if m: "(op, f) \<in> set [(R_ADD, BinaryOperator Add), (R_SUB, BinaryOperator Sub),
                        (R_MAX, \<lambda>x y. Select (ICmp ICMP_SGE x y) x y),
                        (R_MIN, \<lambda>x y. Select (ICmp ICMP_SLE x y) x y),
                        (R_FADD, BinaryOperator FAdd), (R_FSUB, BinaryOperator FSub),
                        (R_FMAX, \<lambda>x y. Intrinsic Maxnum [x, y]),
                        (R_FMIN, \<lambda>x y. Intrinsic Minnum [x, y])]" for op f
  proof (intro allI impI conjI)
    fix elt_ty nv k v vs
    assume n: "neutral op elt_ty = Inr nv"
      and vs: "map (lookup vals) idxs = replicate k Nullptr @ v # vs \<and> Nullptr \<notin> set (v # vs)"
    have "visit_reduce1d_inst (do_acc op) nv vals idxs
        = Inr \<lparr>thread_acc = foldl f v vs, shared_fill = nv\<rparr>"
      using do_acc_accumulators(1) [OF m] do_acc_accumulators(2) [OF m] conjunct1 [OF vs]
        conjunct2 [OF vs]
      by (rule visit_reduce1d_inst_leading_null)
    then show "visit_reduce_inst op elt_ty 1 axis vals idxs
               = Inr (Reduce_1d \<lparr>thread_acc = foldl f v vs, shared_fill = nv\<rparr>)"
      by (simp add: visit_reduce_inst_def n)
  next
    fix elt_ty nv
    assume n: "neutral op elt_ty = Inr nv"
      and h: "rank \<noteq> 1 \<and> (\<forall>idx\<in>set idxs. axis < length idx \<and> lookup vals idx \<noteq> Nullptr)"
    have "\<exists>accs. visit_reducend_inst (do_acc op) nv axis vals idxs = Inr accs
       \<and> (\<forall>p. accs p = fold_first f
            (map (lookup vals) (filter (\<lambda>idx. idx[axis := ConstantInt 32 0] = p) idxs)))"
      using do_acc_accumulators(1) [OF m] do_acc_accumulators(2) [OF m] conjunct2 [OF h]
      by (rule visit_reducend_inst_fold)
    then obtain accs where a: "visit_reducend_inst (do_acc op) nv axis vals idxs = Inr accs"
      "\<forall>p. accs p = fold_first f
            (map (lookup vals) (filter (\<lambda>idx. idx[axis := ConstantInt 32 0] = p) idxs))"
      by blast
    have "visit_reduce_inst op elt_ty rank axis vals idxs = Inr (Reduce_nd accs)"
      using h by (simp add: visit_reduce_inst_def n a(1))
    then show "\<exists>accs. visit_reduce_inst op elt_ty rank axis vals idxs = Inr (Reduce_nd accs)
                \<and> (\<forall>p. accs p = fold_first f (map (lookup vals)
                      (filter (\<lambda>idx. idx[axis := ConstantInt 32 0] = p) idxs)))"
      using a(2) by blast
  qed
  have fp: "ty \<in> {HalfTy, FloatTy, DoubleTy} \<longrightarrow>
        neutral R_FADD ty = Inr (ConstantFP ty 0)
        \<and> neutral R_FSUB ty = Inr (ConstantFP ty 0)
        \<and> neutral R_FMAX ty = Inr (ConstantFP ty (fp_bits ty Neg_Infinity))
        \<and> neutral R_FMIN ty = Inr (ConstantFP ty (fp_bits ty Infinity))"
    using neutral_fp [of ty] by (simp add: fp_bits_float(1))
  show ?thesis
    apply (intro conjI)
           apply (rule neutral_zero)
          apply (rule neutral_zero)
         apply (rule neutral_int32)
        apply (rule neutral_int32)
       apply (rule fp)
      apply (rule fp_bits_float)
     apply (rule fp_bits_float)
    using fold apply blast
    done
qed

theorem reduce_neutral_and_private_fold_witness:
  "neutral R_FMAX FloatTy = Inr (ConstantFP FloatTy 0xFF800000)
   \<and> neutral R_ADD (IntegerTy 16) = Inr (ConstantInt 16 0)
   \<and> visit_reduce_inst R_ADD (IntegerTy 32) 1 0
        [[Argument 10] \<mapsto> Argument 0, [Argument 11] \<mapsto> Argument 1, [Argument 12] \<mapsto> Argument 2]
        [[Argument 9], [Argument 10], [Argument 11], [Argument 12]]
       = Inr (Reduce_1d
           \<lparr>thread_acc = BinaryOperator Add (BinaryOperator Add (Argument 0) (Argument 1)) (Argument 2),
            shared_fill = ConstantInt 32 0\<rparr>)
   \<and> (\<exists>accs. visit_reduce_inst R_MAX (IntegerTy 32) 2 1
        [[Argument 10, Argument 20] \<mapsto> Argument 0, [Argument 10, Argument 21] \<mapsto> Argument 1,
         [Argument 11, Argument 20] \<mapsto> Argument 2, [Argument 11, Argument 21] \<mapsto> Argument 3]
        [[Argument 10, Argument 20], [Argument 11, Argument 20],
         [Argument 10, Argument 21], [Argument 11, Argument 21]]
       = Inr (Reduce_nd accs)
      \<and> accs [Argument 10, ConstantInt 32 0]
          = Some (Select (ICmp ICMP_SGE (Argument 0) (Argument 1)) (Argument 0) (Argument 1))
      \<and> accs [Argument 11, ConstantInt 32 0]
          = Some (Select (ICmp ICMP_SGE (Argument 2) (Argument 3)) (Argument 2) (Argument 3))
      \<and> accs [Argument 12, ConstantInt 32 0] = None)"
proof -
  let ?vals1 = "[[Argument 10] \<mapsto> Argument 0, [Argument 11] \<mapsto> Argument 1,
                 [Argument 12] \<mapsto> Argument 2]"
  let ?idxs1 = "[[Argument 9], [Argument 10], [Argument 11], [Argument 12]]"
  let ?vals2 = "[[Argument 10, Argument 20] \<mapsto> Argument 0, [Argument 10, Argument 21] \<mapsto> Argument 1,
         [Argument 11, Argument 20] \<mapsto> Argument 2, [Argument 11, Argument 21] \<mapsto> Argument 3]"
  let ?idxs2 = "[[Argument 10, Argument 20], [Argument 11, Argument 20],
         [Argument 10, Argument 21], [Argument 11, Argument 21]]"
  have h1: "FloatTy \<in> {HalfTy, FloatTy, DoubleTy}" by simp
  have h2: "map (lookup ?vals1) ?idxs1 = replicate 1 Nullptr @ Argument 0 # [Argument 1, Argument 2]
      \<and> Nullptr \<notin> set (Argument 0 # [Argument 1, Argument 2])"
    by (simp add: lookup_def)
  have h3: "(2::nat) \<noteq> 1 \<and> (\<forall>idx\<in>set ?idxs2. 1 < length idx \<and> lookup ?vals2 idx \<noteq> Nullptr)"
    by (simp add: lookup_def)
  have n1: "neutral R_ADD (IntegerTy 32) = Inr (ConstantInt 32 0)" by (simp add: to_uint64_def)
  have n2: "neutral R_MAX (IntegerTy 32) = Inr (ConstantInt 32 (- 2147483648))"
    by (simp add: INT32_MIN_def to_uint64_def
      signed_take_bit_eq_take_bit_minus take_bit_eq_mod bit_iff_odd)
  note t1 = reduce_neutral_and_private_fold [of 16 FloatTy ?vals1 ?idxs1 0 2]
  note t2 = reduce_neutral_and_private_fold [of 16 FloatTy ?vals2 ?idxs2 1 2]
  have a: "neutral R_FMAX FloatTy = Inr (ConstantFP FloatTy 0xFF800000)"
    "neutral R_ADD (IntegerTy 16) = Inr (ConstantInt 16 0)"
    using t1 h1 by simp_all
  have m1: "(R_ADD, BinaryOperator Add) \<in> set [(R_ADD, BinaryOperator Add), (R_SUB, BinaryOperator Sub),
                        (R_MAX, \<lambda>x y. Select (ICmp ICMP_SGE x y) x y),
                        (R_MIN, \<lambda>x y. Select (ICmp ICMP_SLE x y) x y),
                        (R_FADD, BinaryOperator FAdd), (R_FSUB, BinaryOperator FSub),
                        (R_FMAX, \<lambda>x y. Intrinsic Maxnum [x, y]),
                        (R_FMIN, \<lambda>x y. Intrinsic Minnum [x, y])]"
    by simp
  have m2: "(R_MAX, \<lambda>x y. Select (ICmp ICMP_SGE x y) x y)
       \<in> set [(R_ADD, BinaryOperator Add), (R_SUB, BinaryOperator Sub),
                        (R_MAX, \<lambda>x y. Select (ICmp ICMP_SGE x y) x y),
                        (R_MIN, \<lambda>x y. Select (ICmp ICMP_SLE x y) x y),
                        (R_FADD, BinaryOperator FAdd), (R_FSUB, BinaryOperator FSub),
                        (R_FMAX, \<lambda>x y. Intrinsic Maxnum [x, y]),
                        (R_FMIN, \<lambda>x y. Intrinsic Minnum [x, y])]"
    by simp
  note b1 = bspec [OF t1 [THEN conjunct2, THEN conjunct2, THEN conjunct2, THEN conjunct2,
                        THEN conjunct2, THEN conjunct2, THEN conjunct2] m1, unfolded prod.case]
  note b2 = bspec [OF t2 [THEN conjunct2, THEN conjunct2, THEN conjunct2, THEN conjunct2,
                        THEN conjunct2, THEN conjunct2, THEN conjunct2] m2, unfolded prod.case]
  have b: "visit_reduce_inst R_ADD (IntegerTy 32) 1 0 ?vals1 ?idxs1
       = Inr (Reduce_1d
           \<lparr>thread_acc = foldl (BinaryOperator Add) (Argument 0) [Argument 1, Argument 2],
            shared_fill = ConstantInt 32 0\<rparr>)"
    using b1 n1 h2 by blast
  obtain accs where c: "visit_reduce_inst R_MAX (IntegerTy 32) 2 1 ?vals2 ?idxs2 = Inr (Reduce_nd accs)"
    "\<forall>p. accs p = fold_first (\<lambda>x y. Select (ICmp ICMP_SGE x y) x y) (map (lookup ?vals2)
                      (filter (\<lambda>idx. idx[1 := ConstantInt 32 0] = p) ?idxs2))"
    using b2 n2 h3 by blast
  have "accs [Argument 10, ConstantInt 32 0]
          = Some (Select (ICmp ICMP_SGE (Argument 0) (Argument 1)) (Argument 0) (Argument 1))"
    "accs [Argument 11, ConstantInt 32 0]
          = Some (Select (ICmp ICMP_SGE (Argument 2) (Argument 3)) (Argument 2) (Argument 3))"
    "accs [Argument 12, ConstantInt 32 0] = None"
    using c(2) by (simp_all add: fold_first_def lookup_def)
  then show ?thesis using a b c(1) by simp
qed

text \<open>
  Claim C9 as stated fails. For 64-bit elements the neutral element of MAX is
  \<open>- 2 ^ 31\<close>, not the least 64-bit integer, and for 16-bit elements the neutral element of
  MIN is \<open>- 1\<close>. The private fold of two elements under SUB subtracts the second from the
  first (5 and 3 give 2); a fold that started from the neutral element 0 would give -8.
\<close>

theorem reduce_neutral_counterexample:
  "neutral R_MAX (IntegerTy 64) = Inr (ConstantInt 64 (- 2147483648))
   \<and> int_min 64 = - 9223372036854775808
   \<and> neutral R_MIN (IntegerTy 16) = Inr (ConstantInt 16 (- 1))
   \<and> int_max 16 = 32767
   \<and> visit_reduce_inst R_SUB (IntegerTy 32) 1 0
        [[Argument 10] \<mapsto> Argument 0, [Argument 11] \<mapsto> Argument 1]
        [[Argument 10], [Argument 11]]
       = Inr (Reduce_1d \<lparr>thread_acc = BinaryOperator Sub (Argument 0) (Argument 1),
                         shared_fill = ConstantInt 32 0\<rparr>)
   \<and> eval (\<lambda>i. Bits 32 (if i = 0 then 5 else 3)) (BinaryOperator Sub (Argument 0) (Argument 1))
       = Some (Bits 32 2)
   \<and> eval (\<lambda>i. Bits 32 (if i = 0 then 5 else 3))
        (BinaryOperator Sub (BinaryOperator Sub (ConstantInt 32 0) (Argument 0)) (Argument 1))
       = Some (Bits 32 4294967288)"
  by (simp add: INT32_MIN_def INT32_MAX_def to_uint64_def int_min_def int_max_def
      signed_take_bit_eq_take_bit_minus take_bit_eq_mod bit_iff_odd
      visit_reduce_inst_def visit_reduce1d_inst_def lookup_def do_acc_def)

section \<open>Properties of the swizzled offsets\<close>

text \<open>
  Claim C8. The swizzled offset built by the write path from registers to shared memory
  and the one built by the asynchronous masked load are the same function of their
  inputs, and so are the tile parameters and the offset of the pointer of every element.
  When no divisor is zero the offset is
  \<open>(((group / s) xor phase) * s + group mod s) * min_vec + row * shape\<close> with
  \<open>phase = (row / per_phase) mod max_phase\<close> and
  \<open>group = (col + key * out_vec) / min_vec\<close>, in 32-bit unsigned arithmetic.
\<close>

theorem swizzle_offsets_agree:
  "cts_swizzle_off t shape0 key_second row col = async_swizzle_off t shape0 key_second row col
   \<and> cts_tiles x = async_tiles x
   \<and> cts_pointer_offset x idxs i = async_pointer_offset x idxs i
   \<and> (i32 (per_phase t) \<noteq> 0 \<and> i32 (max_phase t) \<noteq> 0 \<and> i32 (min_vec t) \<noteq> 0 \<and> i32 (s t) \<noteq> 0
      \<longrightarrow> async_swizzle_off t shape0 key_second row col =
          Some (let phase = (row div i32 (per_phase t)) mod i32 (max_phase t);
                    group = (col + i32 (key_second * out_vec t)) div i32 (min_vec t)
                in (((group div i32 (s t)) XOR phase) * i32 (s t) + group mod i32 (s t))
                     * i32 (min_vec t) + row * i32 shape0))"
proof -
  have a: "cts_swizzle_off t shape0 key_second row col
             = async_swizzle_off t shape0 key_second row col" for t shape0 key_second row col
    by (simp add: cts_swizzle_off_def async_swizzle_off_def)
  have b: "cts_tiles x = async_tiles x"
    by (simp add: cts_tiles_def async_tiles_def)
  have c: "cts_pointer_offset x idxs i = async_pointer_offset x idxs i"
    by (simp add: cts_pointer_offset_def async_pointer_offset_def a b)
  have d: "i32 (per_phase t) \<noteq> 0 \<and> i32 (max_phase t) \<noteq> 0 \<and> i32 (min_vec t) \<noteq> 0 \<and> i32 (s t) \<noteq> 0
      \<longrightarrow> async_swizzle_off t shape0 key_second row col =
          Some (let phase = (row div i32 (per_phase t)) mod i32 (max_phase t);
                    group = (col + i32 (key_second * out_vec t)) div i32 (min_vec t)
                in (((group div i32 (s t)) XOR phase) * i32 (s t) + group mod i32 (s t))
                     * i32 (min_vec t) + row * i32 shape0)"
    by (simp add: async_swizzle_off_def udiv_def urem_def Let_def)
  show ?thesis using a b c d by blast
qed

theorem swizzle_offsets_agree_witness:
  "cts_swizzle_off \<lparr>in_vec = 4, out_vec = 8, min_vec = 4, s = 2, per_phase = 1,
        max_phase = 8, in_ld = 4, n_shared_1 = 1, n_shared_0 = 1\<rparr> 64 0 3 8 = Some 208
   \<and> async_swizzle_off \<lparr>in_vec = 4, out_vec = 8, min_vec = 4, s = 2, per_phase = 1,
        max_phase = 8, in_ld = 4, n_shared_1 = 1, n_shared_0 = 1\<rparr> 64 0 3 8 = Some 208"
proof -
  let ?t = "\<lparr>in_vec = 4, out_vec = 8, min_vec = 4, s = 2, per_phase = 1,
        max_phase = 8, in_ld = 4, n_shared_1 = 1, n_shared_0 = 1\<rparr>"
  have h: "i32 (per_phase ?t) \<noteq> 0 \<and> i32 (max_phase ?t) \<noteq> 0 \<and> i32 (min_vec ?t) \<noteq> 0
      \<and> i32 (s ?t) \<noteq> 0"
    by (simp add: i32_def)
  show ?thesis
    using swizzle_offsets_agree [of ?t 64 0 3 8] h by (simp add: i32_def Let_def)
qed

end
